theory Spec2Isabelle
  imports Complex_Main "HOL-Library.Multiset"
begin

section \<open>PPO for the humanoid: a shallow embedding of the two training scripts\<close>

text \<open>
  The repository holds two scripts, \<^verbatim>\<open>ppo_mujoco_humanoid.py\<close> (diagonal Gaussian policy)
  and \<^verbatim>\<open>ppo_mujoco_humanoid_beta.py\<close> (Beta policy). Both are one long \<^verbatim>\<open>__main__\<close>
  block around the same PPO loop. The embedding follows the source block by block.

  Conventions.
  \<^item> Tensors of finite floats are lists of \<^typ>\<open>real\<close>: arithmetic is exact, rounding
    is not modelled. Where an infinity or a nan decides what the code does, the tensor
    is a list of floats with those values. A buffer of shape (T, N) is a list of T rows
    of length N.
  \<^item> Python integers are \<^typ>\<open>int\<close>; \<open>//\<close> is \<open>div\<close> (both round towards minus infinity),
    with the \<^verbatim>\<open>ZeroDivisionError\<close> written out.
  \<^item> What the libraries compute (networks, the optimiser, the Beta density, the random
    generator) is not part of the repository: their results enter the model as
    arguments of the functions that use them.
\<close>

subsection \<open>Errors and configuration\<close>

datatype py_error = ZeroDivisionError | ValueError | NameError string

text \<open>
  The namespace returned by \<^verbatim>\<open>parse_args\<close>, restricted to the options the modelled code
  reads. \<open>train_flag\<close> is an option of the Gaussian script only. \<open>batch_size\<close> and
  \<open>minibatch_size\<close> are the two attributes \<^verbatim>\<open>parse_args\<close> assigns after parsing.
\<close>

record args =
  track :: bool
  train_flag :: bool
  total_timesteps :: int
  num_envs :: int
  num_steps :: int
  gae :: bool
  gamma :: real
  gae_lambda :: real
  num_minibatches :: int
  update_epochs :: int
  norm_adv :: bool
  clip_coef :: real
  clip_vloss :: bool
  target_kl :: "real option"
  batch_size :: int
  minibatch_size :: int

text \<open>
  \<^verbatim>\<open>args.batch_size = int(args.num_envs * args.num_steps)\<close>
  \<^verbatim>\<open>args.minibatch_size = int(args.batch_size // args.num_minibatches)\<close>
  The same two lines end \<^verbatim>\<open>parse_args\<close> in both scripts; nothing else is checked.
\<close>

definition parse_args :: "args \<Rightarrow> py_error + args" where
  "parse_args a =
     (let a1 = a\<lparr>batch_size := num_envs a * num_steps a\<rparr>
      in if num_minibatches a1 = 0 then Inl ZeroDivisionError
         else Inr (a1\<lparr>minibatch_size := batch_size a1 div num_minibatches a1\<rparr>))"

text \<open>The defaults of the Beta script's parser (the attributes set later start at 0).\<close>

definition default_args :: args where
  "default_args =
     \<lparr>track = True, train_flag = True, total_timesteps = 10000000, num_envs = 2,
      num_steps = 2048, gae = True, gamma = 99 / 100, gae_lambda = 95 / 100,
      num_minibatches = 32, update_epochs = 10, norm_adv = True, clip_coef = 2 / 10,
      clip_vloss = True, target_kl = None, batch_size = 0, minibatch_size = 0\<rparr>"

subsection \<open>The Gaussian script: which branch of \<^verbatim>\<open>__main__\<close> runs\<close>

text \<open>
  \<^verbatim>\<open>args.train_flag = False\<close> (line 194), then
  \<^verbatim>\<open>if args.track and args.train_flag:\<close> training \<^verbatim>\<open>else:\<close> ten calls of \<^verbatim>\<open>test\<close>.
\<close>

datatype branch = TrainingBranch | TestBranch

definition gaussian_main_branch :: "args \<Rightarrow> branch" where
  "gaussian_main_branch a =
     (let a1 = a\<lparr>train_flag := False\<rparr>
      in if track a1 \<and> train_flag a1 then TrainingBranch else TestBranch)"

subsection \<open>Tensor operations\<close>

type_synonym vec = "real list"

text \<open>
  A binary operation on two one-dimensional tensors, with torch's broadcasting of a
  one-element tensor (a Python scalar behaves like one). Equal lengths combine
  elementwise. Other shape mismatches raise in torch; the theorems below assume
  matching shapes.
\<close>

definition bcast2 :: "('a \<Rightarrow> 'a \<Rightarrow> 'a) \<Rightarrow> 'a list \<Rightarrow> 'a list \<Rightarrow> 'a list" where
  "bcast2 f u v =
     (if length u = 1 \<and> length v \<noteq> 1 then map (f (hd u)) v
      else if length v = 1 \<and> length u \<noteq> 1 then map (\<lambda>x. f x (hd v)) u
      else map2 f u v)"

definition t_add :: "vec \<Rightarrow> vec \<Rightarrow> vec" where
  "t_add = bcast2 (+)"

definition t_sub :: "vec \<Rightarrow> vec \<Rightarrow> vec" where
  "t_sub = bcast2 (-)"

definition t_mul :: "vec \<Rightarrow> vec \<Rightarrow> vec" where
  "t_mul = bcast2 (*)"

definition t_max :: "vec \<Rightarrow> vec \<Rightarrow> vec" where
  "t_max = bcast2 max"

definition s_mul :: "real \<Rightarrow> vec \<Rightarrow> vec" where
  "s_mul c v = map (\<lambda>x. c * x) v"

definition s_rsub :: "real \<Rightarrow> vec \<Rightarrow> vec" where
  "s_rsub c v = map (\<lambda>x. c - x) v"

definition t_sq :: "vec \<Rightarrow> vec" where
  "t_sq v = map (\<lambda>x. x ^ 2) v"

text \<open>\<^verbatim>\<open>torch.clamp(x, lo, hi)\<close> is \<open>min(max(x, lo), hi)\<close> on every element.\<close>

definition t_clamp :: "vec \<Rightarrow> real \<Rightarrow> real \<Rightarrow> vec" where
  "t_clamp v lo hi = map (\<lambda>x. min (max x lo) hi) v"

text \<open>The mean of a non-empty tensor (torch returns nan on an empty one).\<close>

definition t_mean :: "vec \<Rightarrow> real" where
  "t_mean v = sum_list v / real (length v)"

text \<open>
  Where a non-finite float decides what the code does, floats carry their non-finite
  values: \<open>Fin x\<close> is a finite float, \<open>PInf\<close> and \<open>NInf\<close> the infinities, \<open>NaN\<close>
  not-a-number.
\<close>

datatype fl = Fin real | PInf | NInf | NaN

fun isnan :: "fl \<Rightarrow> bool" where
  "isnan NaN = True"
| "isnan _ = False"

fun isinf :: "fl \<Rightarrow> bool" where
  "isinf PInf = True"
| "isinf NInf = True"
| "isinf _ = False"

text \<open>
  Division of two finite floats. It never raises: a zero divisor gives nan for 0/0 and
  an infinity otherwise (the divisor here is a difference \<open>high - low\<close>, whose zero is
  the positive zero).
\<close>

definition fl_div :: "real \<Rightarrow> real \<Rightarrow> fl" where
  "fl_div x y =
     (if y \<noteq> 0 then Fin (x / y) else if x = 0 then NaN else if 0 < x then PInf else NInf)"

text \<open>
  Arithmetic on floats as IEEE 754 defines it on the non-finite values: nan absorbs,
  \<open>inf - inf\<close> and \<open>0 * inf\<close> are nan. On finite values it is the exact operation
  (rounding and overflow are not modelled).
\<close>

fun fl_neg :: "fl \<Rightarrow> fl" where
  "fl_neg (Fin x) = Fin (- x)"
| "fl_neg PInf = NInf"
| "fl_neg NInf = PInf"
| "fl_neg NaN = NaN"

fun fl_add :: "fl \<Rightarrow> fl \<Rightarrow> fl" where
  "fl_add NaN _ = NaN"
| "fl_add _ NaN = NaN"
| "fl_add (Fin x) (Fin y) = Fin (x + y)"
| "fl_add PInf NInf = NaN"
| "fl_add NInf PInf = NaN"
| "fl_add PInf _ = PInf"
| "fl_add _ PInf = PInf"
| "fl_add NInf _ = NInf"
| "fl_add _ NInf = NInf"

definition fl_sub :: "fl \<Rightarrow> fl \<Rightarrow> fl" where
  "fl_sub x y = fl_add x (fl_neg y)"

definition fl_inf_times :: "bool \<Rightarrow> real \<Rightarrow> fl" where
  "fl_inf_times positive x =
     (if x = 0 then NaN else if (0 < x) = positive then PInf else NInf)"

fun fl_mul :: "fl \<Rightarrow> fl \<Rightarrow> fl" where
  "fl_mul NaN _ = NaN"
| "fl_mul _ NaN = NaN"
| "fl_mul (Fin x) (Fin y) = Fin (x * y)"
| "fl_mul (Fin x) PInf = fl_inf_times True x"
| "fl_mul (Fin x) NInf = fl_inf_times False x"
| "fl_mul PInf (Fin y) = fl_inf_times True y"
| "fl_mul NInf (Fin y) = fl_inf_times False y"
| "fl_mul PInf PInf = PInf"
| "fl_mul NInf NInf = PInf"
| "fl_mul PInf NInf = NInf"
| "fl_mul NInf PInf = NInf"

text \<open>The tensor operations of the advantage estimator, over floats.\<close>

definition ft_add :: "fl list \<Rightarrow> fl list \<Rightarrow> fl list" where
  "ft_add = bcast2 fl_add"

definition ft_sub :: "fl list \<Rightarrow> fl list \<Rightarrow> fl list" where
  "ft_sub = bcast2 fl_sub"

definition ft_mul :: "fl list \<Rightarrow> fl list \<Rightarrow> fl list" where
  "ft_mul = bcast2 fl_mul"

definition fs_mul :: "real \<Rightarrow> fl list \<Rightarrow> fl list" where
  "fs_mul c v = map (\<lambda>x. fl_mul (Fin c) x) v"

definition fs_rsub :: "real \<Rightarrow> fl list \<Rightarrow> fl list" where
  "fs_rsub c v = map (\<lambda>x. fl_sub (Fin c) x) v"

subsection \<open>The value loss of one minibatch\<close>

text \<open>
  Gaussian script, lines 345-353. \<open>newvalue\<close> is the critic's output on the minibatch,
  \<open>mb_returns\<close> is \<^verbatim>\<open>b_returns[mb_inds]\<close> and \<open>mb_values\<close> is \<^verbatim>\<open>b_values[mb_inds]\<close>.
  The source binds \<^verbatim>\<open>v_loss_clipped\<close> and then takes
  \<^verbatim>\<open>torch.max(v_loss_unclipped, v_loss_unclipped)\<close>.
\<close>

definition value_loss_gaussian :: "args \<Rightarrow> vec \<Rightarrow> vec \<Rightarrow> vec \<Rightarrow> real" where
  "value_loss_gaussian a newvalue mb_returns mb_values =
     (if clip_vloss a then
        (let v_loss_unclipped = t_sq (t_sub newvalue mb_returns);
             v_clipped = t_add mb_values
               (t_clamp (t_sub newvalue mb_values) (- clip_coef a) (clip_coef a));
             v_loss_clipped = t_sq (t_sub v_clipped mb_returns);
             v_loss_max = t_max v_loss_unclipped v_loss_unclipped
         in 0.5 * t_mean v_loss_max)
      else 0.5 * t_mean (t_sq (t_sub newvalue mb_returns)))"

text \<open>
  Beta script, lines 349-357. Two places differ from the Gaussian script:
  \<^verbatim>\<open>v_loss_clipped = (v_clipped - b_values[mb_inds]) ** 2\<close> and, without clipping,
  \<^verbatim>\<open>v_loss = 0.5 * ((newvalue - b_values[mb_inds]) ** 2).mean()\<close>.
\<close>

definition value_loss_beta :: "args \<Rightarrow> vec \<Rightarrow> vec \<Rightarrow> vec \<Rightarrow> real" where
  "value_loss_beta a newvalue mb_returns mb_values =
     (if clip_vloss a then
        (let v_loss_unclipped = t_sq (t_sub newvalue mb_returns);
             v_clipped = t_add mb_values
               (t_clamp (t_sub newvalue mb_values) (- clip_coef a) (clip_coef a));
             v_loss_clipped = t_sq (t_sub v_clipped mb_values);
             v_loss_max = t_max v_loss_unclipped v_loss_unclipped
         in 0.5 * t_mean v_loss_max)
      else 0.5 * t_mean (t_sq (t_sub newvalue mb_values)))"

text \<open>
  The value loss as the specification words it (section 4.4): with clipping, half the
  mean of the larger of the unclipped and the clipped squared error against the return
  target, the clipped estimate being the collection-time value plus the change clamped
  to \<open>\<plusminus>\<epsilon>\<close>; without clipping, half the mean squared error against the return target.
\<close>

definition spec_value_loss_clipped :: "real \<Rightarrow> vec \<Rightarrow> vec \<Rightarrow> vec \<Rightarrow> real" where
  "spec_value_loss_clipped eps newvalue ret old_value =
     0.5 * t_mean (map (\<lambda>(nv, r, ov).
        max ((nv - r) ^ 2) ((ov + min (max (nv - ov) (- eps)) eps - r) ^ 2))
        (zip newvalue (zip ret old_value)))"

definition spec_value_loss_mse :: "vec \<Rightarrow> vec \<Rightarrow> real" where
  "spec_value_loss_mse newvalue ret =
     0.5 * t_mean (map (\<lambda>(nv, r). (nv - r) ^ 2) (zip newvalue ret))"

subsection \<open>The advantage estimator\<close>

text \<open>
  The rollout buffers the estimator reads, each of shape (num_steps, num_envs):
  \<^verbatim>\<open>rewards\<close>, \<^verbatim>\<open>dones\<close> and \<^verbatim>\<open>values\<close> (here \<open>values_buf\<close>: \<open>values\<close> is a command
  of Isabelle). A done flag is the float 1.0 or 0.0.
\<close>

record buffer =
  rewards :: "vec list"
  dones :: "vec list"
  values_buf :: "vec list"

text \<open>
  One pass of the body of \<^verbatim>\<open>for t in reversed(range(args.num_steps))\<close> in the GAE
  branch (Gaussian script lines 286-295, Beta script lines 290-299), and the loop
  itself: \<open>gae_loop ... k\<close> runs the iterations \<open>t = k - 1, ..., 0\<close>.
  \<^verbatim>\<open>next_value\<close> has shape (1, num_envs) and is kept as its single row.
\<close>

definition gae_step :: "args \<Rightarrow> buffer \<Rightarrow> vec \<Rightarrow> vec \<Rightarrow> nat \<Rightarrow> vec \<Rightarrow> vec" where
  "gae_step a buf next_done next_value t lastgaelam =
     (let nextnonterminal =
            (if int t = num_steps a - 1 then s_rsub 1 next_done
             else s_rsub 1 (dones buf ! (t + 1)));
          nextvalues =
            (if int t = num_steps a - 1 then next_value else values_buf buf ! (t + 1));
          delta = t_sub (t_add (rewards buf ! t)
                    (t_mul (s_mul (gamma a) nextvalues) nextnonterminal)) (values_buf buf ! t)
      in t_add delta (t_mul (s_mul (gamma a * gae_lambda a) nextnonterminal) lastgaelam))"

fun gae_loop :: "args \<Rightarrow> buffer \<Rightarrow> vec \<Rightarrow> vec \<Rightarrow> nat \<Rightarrow> vec \<Rightarrow> vec list \<Rightarrow> vec list" where
  "gae_loop a buf next_done next_value 0 lastgaelam advantages = advantages"
| "gae_loop a buf next_done next_value (Suc t) lastgaelam advantages =
     (let lastgaelam' = gae_step a buf next_done next_value t lastgaelam
      in gae_loop a buf next_done next_value t lastgaelam' (advantages[t := lastgaelam']))"

text \<open>
  The plain-return branch: \<^verbatim>\<open>returns[t] = rewards[t] + gamma * nextnonterminal * next_return\<close>.
\<close>

definition return_step :: "args \<Rightarrow> buffer \<Rightarrow> vec \<Rightarrow> vec \<Rightarrow> nat \<Rightarrow> vec list \<Rightarrow> vec" where
  "return_step a buf next_done next_value t returns =
     (let nextnonterminal =
            (if int t = num_steps a - 1 then s_rsub 1 next_done
             else s_rsub 1 (dones buf ! (t + 1)));
          next_return =
            (if int t = num_steps a - 1 then next_value else returns ! (t + 1))
      in t_add (rewards buf ! t) (t_mul (s_mul (gamma a) nextnonterminal) next_return))"

fun return_loop :: "args \<Rightarrow> buffer \<Rightarrow> vec \<Rightarrow> vec \<Rightarrow> nat \<Rightarrow> vec list \<Rightarrow> vec list" where
  "return_loop a buf next_done next_value 0 returns = returns"
| "return_loop a buf next_done next_value (Suc t) returns =
     return_loop a buf next_done next_value t
       (returns[t := return_step a buf next_done next_value t returns])"

definition zeros_like :: "vec list \<Rightarrow> vec list" where
  "zeros_like m = map (map (\<lambda>_. 0)) m"

text \<open>
  The whole \<^verbatim>\<open>with torch.no_grad()\<close> block after the rollout: the pair
  (advantages, returns). \<^verbatim>\<open>lastgaelam = 0\<close> starts as a scalar, here the one-element
  tensor \<open>[0]\<close>, and takes the shape of a buffer row at the first iteration.
\<close>

definition advantage_estimator ::
  "args \<Rightarrow> buffer \<Rightarrow> vec \<Rightarrow> vec \<Rightarrow> vec list \<times> vec list" where
  "advantage_estimator a buf next_done next_value =
     (if gae a then
        (let advantages = gae_loop a buf next_done next_value (nat (num_steps a)) [0]
                            (zeros_like (rewards buf));
             returns = map2 t_add advantages (values_buf buf)
         in (advantages, returns))
      else
        (let returns = return_loop a buf next_done next_value (nat (num_steps a))
                         (zeros_like (rewards buf));
             advantages = map2 t_sub returns (values_buf buf)
         in (advantages, returns)))"

text \<open>
  The shapes the script gives its tensors: T = \<open>num_steps\<close> rows of N = \<open>num_envs\<close>
  entries in every buffer, N entries in \<^verbatim>\<open>next_done\<close> and in \<^verbatim>\<open>next_value\<close>.
\<close>

definition rows_ok :: "nat \<Rightarrow> nat \<Rightarrow> 'a list list \<Rightarrow> bool" where
  "rows_ok T N m = (length m = T \<and> list_all (\<lambda>r. length r = N) m)"

definition shapes_ok :: "args \<Rightarrow> buffer \<Rightarrow> vec \<Rightarrow> vec \<Rightarrow> bool" where
  "shapes_ok a buf next_done next_value =
     (0 \<le> num_steps a \<and> 0 \<le> num_envs a
      \<and> rows_ok (nat (num_steps a)) (nat (num_envs a)) (rewards buf)
      \<and> rows_ok (nat (num_steps a)) (nat (num_envs a)) (dones buf)
      \<and> rows_ok (nat (num_steps a)) (nat (num_envs a)) (values_buf buf)
      \<and> length next_done = nat (num_envs a)
      \<and> length next_value = nat (num_envs a))"

text \<open>
  The recursion as the specification words it (section 4.2), for step \<open>t\<close> and
  environment \<open>n\<close>: the next non-terminal flag, the next value, and \<open>delta[t]\<close>.
\<close>

definition spec_nextnonterminal :: "args \<Rightarrow> buffer \<Rightarrow> vec \<Rightarrow> nat \<Rightarrow> nat \<Rightarrow> real" where
  "spec_nextnonterminal a buf next_done t n =
     (if Suc t = nat (num_steps a) then 1 - next_done ! n else 1 - dones buf ! (t + 1) ! n)"

definition spec_nextvalue :: "args \<Rightarrow> buffer \<Rightarrow> vec \<Rightarrow> nat \<Rightarrow> nat \<Rightarrow> real" where
  "spec_nextvalue a buf next_value t n =
     (if Suc t = nat (num_steps a) then next_value ! n else values_buf buf ! (t + 1) ! n)"

definition spec_delta :: "args \<Rightarrow> buffer \<Rightarrow> vec \<Rightarrow> vec \<Rightarrow> nat \<Rightarrow> nat \<Rightarrow> real" where
  "spec_delta a buf next_done next_value t n =
     rewards buf ! t ! n
     + gamma a * spec_nextvalue a buf next_value t n * spec_nextnonterminal a buf next_done t n
     - values_buf buf ! t ! n"

text \<open>
  A small segment used to exercise the estimator: one environment, four steps, reward 1
  at every step, value estimate 0.5, no episode end inside the segment.
\<close>

definition example_args :: args where
  "example_args = default_args\<lparr>num_envs := 1, num_steps := 4\<rparr>"

definition example_buffer :: buffer where
  "example_buffer = \<lparr>rewards = [[1], [1], [1], [1]], dones = [[0], [0], [0], [0]],
     values_buf = [[1/2], [1/2], [1/2], [1/2]]\<rparr>"


text \<open>
  The GAE branch once more, over floats with their non-finite values: a value estimate
  comes out of the critic network and may be an infinity or a nan. The lines are the
  same as in \<open>gae_step\<close>, \<open>gae_loop\<close> and the GAE branch of \<open>advantage_estimator\<close>;
  on finite tensors the two models agree (\<open>gae_loop_fl_finite\<close>).
\<close>

record float_buffer =
  f_rewards :: "fl list list"
  f_dones :: "fl list list"
  f_values :: "fl list list"

definition gae_step_fl ::
  "args \<Rightarrow> float_buffer \<Rightarrow> fl list \<Rightarrow> fl list \<Rightarrow> nat \<Rightarrow> fl list \<Rightarrow> fl list" where
  "gae_step_fl a buf next_done next_value t lastgaelam =
     (let nextnonterminal =
            (if int t = num_steps a - 1 then fs_rsub 1 next_done
             else fs_rsub 1 (f_dones buf ! (t + 1)));
          nextvalues =
            (if int t = num_steps a - 1 then next_value else f_values buf ! (t + 1));
          delta = ft_sub (ft_add (f_rewards buf ! t)
                    (ft_mul (fs_mul (gamma a) nextvalues) nextnonterminal)) (f_values buf ! t)
      in ft_add delta (ft_mul (fs_mul (gamma a * gae_lambda a) nextnonterminal) lastgaelam))"

fun gae_loop_fl ::
  "args \<Rightarrow> float_buffer \<Rightarrow> fl list \<Rightarrow> fl list \<Rightarrow> nat \<Rightarrow> fl list \<Rightarrow> fl list list
   \<Rightarrow> fl list list" where
  "gae_loop_fl a buf next_done next_value 0 lastgaelam advantages = advantages"
| "gae_loop_fl a buf next_done next_value (Suc t) lastgaelam advantages =
     (let lastgaelam' = gae_step_fl a buf next_done next_value t lastgaelam
      in gae_loop_fl a buf next_done next_value t lastgaelam' (advantages[t := lastgaelam']))"

definition gae_advantages_fl ::
  "args \<Rightarrow> float_buffer \<Rightarrow> fl list \<Rightarrow> fl list \<Rightarrow> fl list list" where
  "gae_advantages_fl a buf next_done next_value =
     gae_loop_fl a buf next_done next_value (nat (num_steps a)) [Fin 0]
       (map (map (\<lambda>_. Fin 0)) (f_rewards buf))"

definition shapes_ok_fl :: "args \<Rightarrow> float_buffer \<Rightarrow> fl list \<Rightarrow> fl list \<Rightarrow> bool" where
  "shapes_ok_fl a buf next_done next_value =
     (0 \<le> num_steps a \<and> 0 \<le> num_envs a
      \<and> rows_ok (nat (num_steps a)) (nat (num_envs a)) (f_rewards buf)
      \<and> rows_ok (nat (num_steps a)) (nat (num_envs a)) (f_dones buf)
      \<and> rows_ok (nat (num_steps a)) (nat (num_envs a)) (f_values buf)
      \<and> length next_done = nat (num_envs a)
      \<and> length next_value = nat (num_envs a))"

text \<open>A buffer of finite floats, as a float buffer.\<close>

definition float_of_buffer :: "buffer \<Rightarrow> float_buffer" where
  "float_of_buffer buf =
     \<lparr>f_rewards = map (map Fin) (rewards buf), f_dones = map (map Fin) (dones buf),
      f_values = map (map Fin) (values_buf buf)\<rparr>"

subsection \<open>Epochs and minibatch indices\<close>

text \<open>
  Python's \<^verbatim>\<open>range(start, stop, step)\<close> as a list: a zero step raises \<^verbatim>\<open>ValueError\<close>,
  the number of elements is the one CPython computes.
\<close>

definition range_len :: "int \<Rightarrow> int \<Rightarrow> int \<Rightarrow> nat" where
  "range_len start stop step =
     (if 0 < step then (if start < stop then nat ((stop - start - 1) div step + 1) else 0)
      else (if stop < start then nat ((start - stop - 1) div (- step) + 1) else 0))"

definition py_range :: "int \<Rightarrow> int \<Rightarrow> int \<Rightarrow> py_error + int list" where
  "py_range start stop step =
     (if step = 0 then Inl ValueError
      else Inr (map (\<lambda>k. start + int k * step) [0..<range_len start stop step]))"

text \<open>
  The slice \<^verbatim>\<open>xs[start:end]\<close>: a negative bound counts from the end, and both bounds
  are clamped to the length.
\<close>

definition slice_bound :: "int \<Rightarrow> int \<Rightarrow> nat" where
  "slice_bound i n = nat (if i < 0 then max (i + n) 0 else min i n)"

definition py_slice :: "'a list \<Rightarrow> int \<Rightarrow> int \<Rightarrow> 'a list" where
  "py_slice xs start end =
     drop (slice_bound start (int (length xs)))
       (take (slice_bound end (int (length xs))) xs)"

definition np_arange :: "int \<Rightarrow> int list" where
  "np_arange n = map int [0..<nat n]"

text \<open>
  \<^verbatim>\<open>np.random.shuffle(b_inds)\<close> rearranges the array in place. The generator is not
  part of the repository: \<open>p\<close> is the rearrangement it draws, position \<open>i\<close> of the result
  receiving the element at position \<open>p ! i\<close>; numpy draws a permutation of the positions.
\<close>

definition np_random_shuffle :: "nat list \<Rightarrow> 'a list \<Rightarrow> 'a list" where
  "np_random_shuffle p xs = map (\<lambda>i. xs ! i) p"

definition is_permutation :: "nat \<Rightarrow> nat list \<Rightarrow> bool" where
  "is_permutation n p = (sort p = [0..<n])"

text \<open>
  The index sets of one epoch:
  \<^verbatim>\<open>for start in range(0, args.batch_size, args.minibatch_size):\<close>
  \<^verbatim>\<open>    end = start + args.minibatch_size; mb_inds = b_inds[start:end]\<close>
\<close>

definition minibatch_inds :: "args \<Rightarrow> int list \<Rightarrow> py_error + int list list" where
  "minibatch_inds a b_inds =
     (case py_range 0 (batch_size a) (minibatch_size a) of
        Inl e \<Rightarrow> Inl e
      | Inr starts \<Rightarrow>
          Inr (map (\<lambda>start. py_slice b_inds start (start + minibatch_size a)) starts))"

text \<open>
  \<^verbatim>\<open>for epoch in range(args.update_epochs): np.random.shuffle(b_inds); ...\<close>
  The result lists, epoch by epoch, the minibatch index sets; \<open>draw epoch\<close> is the
  rearrangement drawn in that epoch, applied to the array as the previous epoch left it.
\<close>

fun epoch_inds ::
  "args \<Rightarrow> (nat \<Rightarrow> nat list) \<Rightarrow> nat list \<Rightarrow> int list \<Rightarrow> py_error + int list list list" where
  "epoch_inds a draw [] b_inds = Inr []"
| "epoch_inds a draw (epoch # rest) b_inds =
     (let b_inds' = np_random_shuffle (draw epoch) b_inds
      in case minibatch_inds a b_inds' of
           Inl e \<Rightarrow> Inl e
         | Inr mbs \<Rightarrow>
             (case epoch_inds a draw rest b_inds' of
                Inl e \<Rightarrow> Inl e
              | Inr r \<Rightarrow> Inr (mbs # r)))"

definition update_inds :: "args \<Rightarrow> (nat \<Rightarrow> nat list) \<Rightarrow> py_error + int list list list" where
  "update_inds a draw =
     epoch_inds a draw [0..<nat (update_epochs a)] (np_arange (batch_size a))"

text \<open>
  A small configuration used to exercise the epoch loop: a batch of six samples in three
  minibatches, two epochs, and the two rearrangements drawn in them.
\<close>

definition example_cli :: args where
  "example_cli = default_args\<lparr>num_envs := 2, num_steps := 3, num_minibatches := 3,
     update_epochs := 2\<rparr>"

definition example_draw :: "nat \<Rightarrow> nat list" where
  "example_draw epoch = (if epoch = 0 then [5, 4, 3, 2, 1, 0] else [1, 0, 3, 2, 5, 4])"


definition example_parsed :: args where
  "example_parsed = example_cli\<lparr>batch_size := 6, minibatch_size := 2\<rparr>"


subsection \<open>The Beta policy\<close>

text \<open>
  The part of \<^verbatim>\<open>Agent\<close> the modelled methods read: the action bounds copied from
  \<^verbatim>\<open>envs.single_action_space\<close>, and the parameter tensors of the two actor sub-networks
  (each flattened), which is all the logging looks at.
\<close>

record agent =
  action_space_high :: vec
  action_space_low :: vec
  actor_alpha_pre_softplus :: "vec list"
  actor_beta_pre_softplus :: "vec list"

text \<open>
  A batch is a list of rows, one per observation; the bounds broadcast over the rows.
  \<^verbatim>\<open>beta_dist_samples * (high - low) + low\<close> and \<^verbatim>\<open>(actions - low) / (high - low)\<close>.
\<close>

definition scale_by_action_bounds :: "agent \<Rightarrow> vec list \<Rightarrow> vec list" where
  "scale_by_action_bounds ag beta_dist_samples =
     map (\<lambda>row. t_add (t_mul row (t_sub (action_space_high ag) (action_space_low ag)))
                  (action_space_low ag)) beta_dist_samples"

definition inv_scale_by_action_bounds :: "agent \<Rightarrow> vec list \<Rightarrow> fl list list" where
  "inv_scale_by_action_bounds ag actions =
     map (\<lambda>row. map2 fl_div (t_sub row (action_space_low ag))
                  (t_sub (action_space_high ag) (action_space_low ag))) actions"

text \<open>
  What \<^verbatim>\<open>get_action_and_value\<close> does, in order. \<open>Logged\<close> is a call of \<^verbatim>\<open>logging.info\<close>;
  the other events are the calls into torch: building \<^verbatim>\<open>Beta(alpha, beta)\<close>, sampling
  from it, its log-density at an argument, its entropy, and the critic.
\<close>

datatype log_entry = Info string | ParamInfo nat vec

datatype event =
  Logged log_entry
| BetaInit "fl list list" "fl list list"
| SampleDrawn
| LogProbEval "fl list list"
| EntropyEval
| CriticEval

text \<open>
  \<^verbatim>\<open>torch.isnan(alpha).any() or torch.isnan(beta).any() or torch.isinf(alpha).any()
  or torch.isinf(beta).any()\<close>
\<close>

definition nonfinite_params :: "fl list list \<Rightarrow> fl list list \<Rightarrow> bool" where
  "nonfinite_params alpha beta =
     (list_ex (list_ex isnan) alpha \<or> list_ex (list_ex isnan) beta
      \<or> list_ex (list_ex isinf) alpha \<or> list_ex (list_ex isinf) beta)"

text \<open>
  \<^verbatim>\<open>for k, v in enumerate(net.parameters()): logging.info("parameter_{}:{}".format(k, v))\<close>
\<close>

definition log_parameters :: "vec list \<Rightarrow> log_entry list" where
  "log_parameters ps = map (\<lambda>(k, v). ParamInfo k v) (enumerate 0 ps)"

text \<open>The body of the \<^verbatim>\<open>if\<close>: four headings and the two parameter dumps.\<close>

definition log_actor_parameters :: "agent \<Rightarrow> log_entry list" where
  "log_actor_parameters ag =
     [Info ''alpha model parameters:''] @ log_parameters (actor_alpha_pre_softplus ag)
     @ [Info ''-----------------------------------'', Info ''beta model parameters:'']
     @ log_parameters (actor_beta_pre_softplus ag)"

text \<open>
  Two checks of torch that decide how the method ends. They are the library's, not the
  repository's: \<^verbatim>\<open>torch.distributions\<close> validates arguments by default, so
  \<^verbatim>\<open>Beta(alpha, beta)\<close> raises \<^verbatim>\<open>ValueError\<close> unless every concentration compares
  greater than 0 (nan fails the comparison, \<open>+inf\<close> passes it), and \<^verbatim>\<open>log_prob\<close> raises
  \<^verbatim>\<open>ValueError\<close> unless every entry of its argument lies in the support \<open>[0, 1]\<close>.
\<close>

definition positive_fl :: "fl \<Rightarrow> bool" where
  "positive_fl x = (case x of Fin r \<Rightarrow> 0 < r | PInf \<Rightarrow> True | NInf \<Rightarrow> False | NaN \<Rightarrow> False)"

definition beta_args_valid :: "fl list list \<Rightarrow> fl list list \<Rightarrow> bool" where
  "beta_args_valid alpha beta =
     (list_all (list_all positive_fl) alpha \<and> list_all (list_all positive_fl) beta)"

definition in_unit_interval :: "fl \<Rightarrow> bool" where
  "in_unit_interval x = (case x of Fin r \<Rightarrow> 0 \<le> r \<and> r \<le> 1 | _ \<Rightarrow> False)"

definition in_support :: "fl list list \<Rightarrow> bool" where
  "in_support arg = list_all (list_all in_unit_interval) arg"

text \<open>
  The result of a call: the events up to the return or the exception, and the outcome,
  which is the action returned (first component of the tuple) or the exception raised.
\<close>

record action_and_value =
  trace :: "event list"
  outcome :: "py_error + vec list"

text \<open>
  \<^verbatim>\<open>get_action_and_value(self, x, action=None)\<close> of the Beta script (lines 157-172).
  \<open>alpha\<close> and \<open>beta\<close> are the values \<^verbatim>\<open>softplus(net(x)) + 1\<close> of the two sub-networks
  on the batch \<open>x\<close>, and \<open>sample\<close> is what \<^verbatim>\<open>probs.sample()\<close> returns when it is called
  (a finite sample; what the sampler returns for infinite parameters is not modelled).
  The method has no \<^verbatim>\<open>raise\<close> of its own: the \<^verbatim>\<open>if\<close> on non-finite parameters only
  logs. It ends early where torch raises, in the constructor (line 168) or in
  \<^verbatim>\<open>log_prob\<close> (line 172).
\<close>

definition get_action_and_value ::
  "agent \<Rightarrow> fl list list \<Rightarrow> fl list list \<Rightarrow> vec list \<Rightarrow> vec list option \<Rightarrow> action_and_value" where
  "get_action_and_value ag alpha beta sample action =
     (let logs = (if nonfinite_params alpha beta then log_actor_parameters ag else []);
          probs = map Logged logs @ [BetaInit alpha beta]
      in if \<not> beta_args_valid alpha beta then \<lparr>trace = probs, outcome = Inl ValueError\<rparr>
         else
           (let sampling = (case action of None \<Rightarrow> [SampleDrawn] | Some _ \<Rightarrow> []);
                action' = (case action of
                             None \<Rightarrow> scale_by_action_bounds ag sample
                           | Some act \<Rightarrow> act);
                arg = inv_scale_by_action_bounds ag action';
                log_prob = probs @ sampling @ [LogProbEval arg]
            in if \<not> in_support arg then \<lparr>trace = log_prob, outcome = Inl ValueError\<rparr>
               else \<lparr>trace = log_prob @ [EntropyEval, CriticEval], outcome = Inr action'\<rparr>))"

text \<open>
  Two agents to evaluate the methods on: bounds \<open>[-0.4, 0.4]\<close> in two dimensions (the
  humanoid's), and a degenerate bound \<open>low = high = 0\<close> in one dimension.
\<close>

definition example_agent :: agent where
  "example_agent = \<lparr>action_space_high = [4 / 10, 4 / 10], action_space_low = [- 4 / 10, - 4 / 10],
     actor_alpha_pre_softplus = [[1, 2], [3]], actor_beta_pre_softplus = [[4]]\<rparr>"

definition degenerate_agent :: agent where
  "degenerate_agent = \<lparr>action_space_high = [0], action_space_low = [0],
     actor_alpha_pre_softplus = [], actor_beta_pre_softplus = []\<rparr>"

subsection \<open>The update cycle: early stopping and metric emission\<close>

text \<open>
  The scalars one minibatch step leaves in the script's variables \<^verbatim>\<open>v_loss\<close>,
  \<^verbatim>\<open>pg_loss\<close>, \<^verbatim>\<open>entropy_loss\<close>, \<^verbatim>\<open>old_approx_kl\<close> and \<^verbatim>\<open>approx_kl\<close>. They come out of
  the networks, so they are inputs of the model.
\<close>

record mb_stats =
  v_loss :: real
  pg_loss :: real
  entropy_loss :: real
  old_approx_kl :: real
  approx_kl :: real

text \<open>
  The module-level names the metric emission reads. \<open>None\<close> is a name that no
  assignment has bound yet: reading it raises \<^verbatim>\<open>NameError\<close>. The five scalars of a
  minibatch step are bound together by the first step.
\<close>

record script_names =
  stats :: "mb_stats option"
  explained_var :: "fl option"

text \<open>
  What one update cycle gets from rollout, estimator and networks: the flattened value
  estimates and return targets, and for every epoch the scalars of its minibatch steps
  in order.
\<close>

record cycle =
  b_values :: vec
  b_returns :: vec
  epoch_stats :: "nat \<Rightarrow> mb_stats list"

text \<open>
  \<^verbatim>\<open>var_y = np.var(y_true)\<close>
  \<^verbatim>\<open>explained_var = np.nan if var_y == 0 else 1 - np.var(y_true - y_pred) / var_y\<close>
\<close>

definition np_var :: "vec \<Rightarrow> real" where
  "np_var v = t_mean (map (\<lambda>x. (x - t_mean v) ^ 2) v)"

definition explained_variance :: "vec \<Rightarrow> vec \<Rightarrow> fl" where
  "explained_variance y_pred y_true =
     (let var_y = np_var y_true
      in if var_y = 0 then NaN else Fin (1 - np_var (t_sub y_true y_pred) / var_y))"

text \<open>The inner \<^verbatim>\<open>for start in range(...)\<close> loop, as far as the names go.\<close>

fun minibatch_loop :: "mb_stats list \<Rightarrow> script_names \<Rightarrow> script_names" where
  "minibatch_loop [] ns = ns"
| "minibatch_loop (s # ss) ns = minibatch_loop ss (ns\<lparr>stats := Some s\<rparr>)"

text \<open>
  \<^verbatim>\<open>for epoch in range(args.update_epochs):\<close> the minibatch loop, then
  \<^verbatim>\<open>if args.target_kl is not None: if approx_kl > args.target_kl: break\<close>, then, still
  inside the epoch loop, the assignment of \<^verbatim>\<open>explained_var\<close> (Gaussian script lines
  365-371, Beta script lines 369-375).
\<close>

fun epoch_loop :: "args \<Rightarrow> cycle \<Rightarrow> nat list \<Rightarrow> script_names \<Rightarrow> py_error + script_names" where
  "epoch_loop a c [] ns = Inr ns"
| "epoch_loop a c (epoch # rest) ns =
     (let ns1 = minibatch_loop (epoch_stats c epoch) ns;
          ns2 = ns1\<lparr>explained_var := Some (explained_variance (b_values c) (b_returns c))\<rparr>
      in case target_kl a of
           None \<Rightarrow> epoch_loop a c rest ns2
         | Some kl \<Rightarrow>
             (case stats ns1 of
                None \<Rightarrow> Inl (NameError ''approx_kl'')
              | Some s \<Rightarrow> if approx_kl s > kl then Inr ns1 else epoch_loop a c rest ns2))"

text \<open>
  The \<^verbatim>\<open>writer.add_scalar\<close> calls after the epoch loop that read those names, in the
  source's order (the learning rate, the clip fraction and the throughput lines read
  names bound before the loop and are left out).
\<close>

definition emit_metrics :: "script_names \<Rightarrow> py_error + (string \<times> fl) list" where
  "emit_metrics ns =
     (case stats ns of
        None \<Rightarrow> Inl (NameError ''v_loss'')
      | Some s \<Rightarrow>
          (case explained_var ns of
             None \<Rightarrow> Inl (NameError ''explained_var'')
           | Some ev \<Rightarrow>
               Inr [(''losses/value_loss'', Fin (v_loss s)),
                    (''losses/policy_loss'', Fin (pg_loss s)),
                    (''losses/entropy'', Fin (entropy_loss s)),
                    (''losses/old_approx_kl'', Fin (old_approx_kl s)),
                    (''losses/approx_kl'', Fin (approx_kl s)),
                    (''losses/explained_variance'', ev)]))"

text \<open>
  \<^verbatim>\<open>for update in range(1, num_updates + 1):\<close> one cycle after the other; an exception
  ends the run. The result is the list of metric rows written, one per cycle.
\<close>

fun update_loop ::
  "args \<Rightarrow> (nat \<Rightarrow> cycle) \<Rightarrow> nat list \<Rightarrow> script_names \<Rightarrow> (string \<times> fl) list list
   \<Rightarrow> py_error + (string \<times> fl) list list" where
  "update_loop a cycle_of [] ns written = Inr written"
| "update_loop a cycle_of (update # rest) ns written =
     (case epoch_loop a (cycle_of update) [0..<nat (update_epochs a)] ns of
        Inl e \<Rightarrow> Inl e
      | Inr ns' \<Rightarrow>
          (case emit_metrics ns' of
             Inl e \<Rightarrow> Inl e
           | Inr row \<Rightarrow> update_loop a cycle_of rest ns' (written @ [row])))"

text \<open>\<^verbatim>\<open>num_updates = args.total_timesteps // args.batch_size\<close> and the loop over the cycles.\<close>

definition training :: "args \<Rightarrow> (nat \<Rightarrow> cycle) \<Rightarrow> py_error + (string \<times> fl) list list" where
  "training a cycle_of =
     (if batch_size a = 0 then Inl ZeroDivisionError
      else (let num_updates = total_timesteps a div batch_size a
            in update_loop a cycle_of [1..<nat (num_updates + 1)]
                 \<lparr>stats = None, explained_var = None\<rparr> []))"

text \<open>
  A run to evaluate the driver on: two cycles of two epochs with one minibatch step
  each, a KL threshold of 0.01, and the \<^verbatim>\<open>approx_kl\<close> that step \<open>epoch\<close> of cycle
  \<open>update\<close> leaves given by \<open>kl update epoch\<close>.
\<close>

definition kl_args :: args where
  "kl_args = default_args\<lparr>total_timesteps := 12, num_envs := 2, num_steps := 3,
     num_minibatches := 1, update_epochs := 2, target_kl := Some (1 / 100),
     batch_size := 6, minibatch_size := 6\<rparr>"

definition kl_cycle :: "(nat \<Rightarrow> nat \<Rightarrow> real) \<Rightarrow> nat \<Rightarrow> cycle" where
  "kl_cycle kl update =
     \<lparr>b_values = [0, 0, 0, 0, 0, 0], b_returns = [1, 0, 1, 0, 1, 0],
      epoch_stats = (\<lambda>epoch. [\<lparr>v_loss = 1, pg_loss = 0, entropy_loss = 0,
                                old_approx_kl = 0, approx_kl = kl update epoch\<rparr>])\<rparr>"

section \<open>Properties\<close>

subsection \<open>Value loss\<close>

lemma bcast2_same_length:
  "length u = length v \<Longrightarrow> bcast2 f u v = map2 f u v"
  by (simp add: bcast2_def)

lemma value_loss_gaussian_unclipped:
  "\<not> clip_vloss a \<Longrightarrow> length newvalue = length ret \<Longrightarrow>
     value_loss_gaussian a newvalue ret vals = spec_value_loss_mse newvalue ret"
  by (simp add: value_loss_gaussian_def spec_value_loss_mse_def t_sq_def t_sub_def
      bcast2_same_length map_zip_map comp_def split_def)

text \<open>
  C1 (code defect). With clipping enabled the claim asks for half the mean of the larger
  of the unclipped and the clipped squared error. Both scripts take the maximum of the
  unclipped error with itself, so the clipped error never enters. At one sample with
  new value 1, return target 1, collection-time value 0 and \<open>\<epsilon> = 0.2\<close> the unclipped error
  is 0 and the clipped one is \<open>(0.2 - 1)\<^sup>2 = 0.64\<close>: both scripts return 0 where the claimed
  loss is 0.32.
\<close>

theorem C1_clipped_value_loss_ignores_clipped_term:
  "value_loss_gaussian default_args [1] [1] [0] = 0
   \<and> value_loss_beta default_args [1] [1] [0] = 0
   \<and> spec_value_loss_clipped (clip_coef default_args) [1] [1] [0] = 8 / 25"
  by (simp add: value_loss_gaussian_def value_loss_beta_def spec_value_loss_clipped_def
      default_args_def t_sq_def t_sub_def t_add_def t_max_def t_clamp_def t_mean_def
      bcast2_def Let_def power2_eq_square)

text \<open>
  C3 (code defect). Without clipping the claim asks for half the mean squared error
  against the return target, in both scripts. The Gaussian script does that
  (\<open>value_loss_gaussian_unclipped\<close>); the Beta script subtracts the collection-time value
  instead. At one sample with new value 1, return target 0 and collection-time value 1
  the Beta script returns 0 where the claimed loss is 0.5.
\<close>

theorem C3_beta_unclipped_value_loss_uses_old_value:
  "value_loss_beta (default_args\<lparr>clip_vloss := False\<rparr>) [1] [0] [1] = 0
   \<and> value_loss_gaussian (default_args\<lparr>clip_vloss := False\<rparr>) [1] [0] [1] = 1 / 2
   \<and> spec_value_loss_mse [1] [0] = 1 / 2"
  by (simp add: value_loss_beta_def value_loss_gaussian_def spec_value_loss_mse_def
      default_args_def t_sq_def t_sub_def t_mean_def bcast2_def)

subsection \<open>Configuration and branch selection\<close>

text \<open>
  C2. In the Gaussian script the training branch is never taken: whatever the parsed
  options are, \<open>train_flag\<close> is overwritten with \<open>False\<close> before the test
  \<open>track and train_flag\<close>, so the \<open>else\<close> branch (the test runs) executes.
\<close>

theorem C2_gaussian_training_branch_unreachable:
  "gaussian_main_branch a = TestBranch"
  by (simp add: gaussian_main_branch_def)

text \<open>
  C10, as claimed: a batch size that the number of minibatches does not divide is
  rejected at setup. It is not: with 1 environment, 10 steps and 3 minibatches
  \<^verbatim>\<open>parse_args\<close> returns normally with the floored minibatch size 3.
\<close>

theorem C10_counterexample:
  "\<not> (3::int) dvd 1 * 10
   \<and> parse_args (default_args\<lparr>num_envs := 1, num_steps := 10, num_minibatches := 3\<rparr>)
     = Inr (default_args\<lparr>num_envs := 1, num_steps := 10, num_minibatches := 3,
              batch_size := 10, minibatch_size := 3\<rparr>)"
  by (simp add: parse_args_def default_args_def)

text \<open>
  C10, amended: for every non-zero number of minibatches, divisor of the batch size or
  not, \<^verbatim>\<open>parse_args\<close> raises nothing and sets the minibatch size to the floor of
  batch size over number of minibatches. (A zero number of minibatches is the one
  configuration it rejects, with \<^verbatim>\<open>ZeroDivisionError\<close>.)
\<close>

theorem C10_parse_args_floors_minibatch_size:
  "num_minibatches a \<noteq> 0 \<Longrightarrow>
     parse_args a = Inr (a\<lparr>batch_size := num_envs a * num_steps a,
       minibatch_size := (num_envs a * num_steps a) div num_minibatches a\<rparr>)"
  by (simp add: parse_args_def)

theorem C10_parse_args_floors_minibatch_size_witness:
  "num_minibatches (default_args\<lparr>num_envs := 1, num_steps := 10, num_minibatches := 3\<rparr>) \<noteq> 0
   \<and> parse_args (default_args\<lparr>num_envs := 1, num_steps := 10, num_minibatches := 3\<rparr>)
     = Inr (default_args\<lparr>num_envs := 1, num_steps := 10, num_minibatches := 3,
              batch_size := 10, minibatch_size := 10 div 3\<rparr>)"
  using C10_parse_args_floors_minibatch_size
    [of "default_args\<lparr>num_envs := 1, num_steps := 10, num_minibatches := 3\<rparr>"]
  by (simp add: default_args_def)

subsection \<open>The advantage estimator\<close>

lemma bcast2_scalar_right: "bcast2 f u [c] = map (\<lambda>x. f x c) u"
  by (cases u) (auto simp: bcast2_def)

lemma bcast2_length:
  "length v = length u \<or> (\<exists>c. v = [c]) \<Longrightarrow> length (bcast2 f u v) = length u"
  by (auto simp: bcast2_same_length bcast2_scalar_right)

lemma bcast2_nth:
  "length v = length u \<Longrightarrow> n < length u \<Longrightarrow> bcast2 f u v ! n = f (u ! n) (v ! n)"
  by (simp add: bcast2_same_length)

lemma bcast2_nth_scalar:
  "n < length u \<Longrightarrow> bcast2 f u [c] ! n = f (u ! n) c"
  by (simp add: bcast2_scalar_right)

lemma rows_ok_nth: "rows_ok T N m \<Longrightarrow> t < T \<Longrightarrow> length (m ! t) = N"
  by (simp add: rows_ok_def list_all_length)

lemma last_step_iff:
  "0 \<le> num_steps a \<Longrightarrow> t < nat (num_steps a) \<Longrightarrow>
     (int t = num_steps a - 1) = (Suc t = nat (num_steps a))"
  by linarith

lemma gae_step_length:
  assumes sh: "shapes_ok a buf next_done next_value"
    and t: "t < nat (num_steps a)"
    and lg: "length lg = nat (num_envs a) \<or> lg = [0]"
  shows "length (gae_step a buf next_done next_value t lg) = nat (num_envs a)"
proof -
  let ?N = "nat (num_envs a)"
  have r: "length (rewards buf ! t) = ?N" and v: "length (values_buf buf ! t) = ?N"
    using sh t by (auto simp: shapes_ok_def rows_ok_nth)
  have nx: "\<not> int t = num_steps a - 1 \<Longrightarrow> length (dones buf ! (t + 1)) = ?N
      \<and> length (values_buf buf ! (t + 1)) = ?N"
    using sh t by (auto simp: shapes_ok_def intro!: rows_ok_nth)
  have nd: "length next_done = ?N" "length next_value = ?N"
    using sh by (auto simp: shapes_ok_def)
  show ?thesis
    using r v nx nd lg
    by (auto simp: gae_step_def Let_def t_add_def t_sub_def t_mul_def s_mul_def s_rsub_def
        bcast2_same_length bcast2_scalar_right)
qed

lemma gae_step_nth:
  assumes sh: "shapes_ok a buf next_done next_value"
    and t: "t < nat (num_steps a)" and n: "n < nat (num_envs a)"
    and lg: "length lg = nat (num_envs a) \<and> x = lg ! n \<or> lg = [0] \<and> x = 0"
  shows "gae_step a buf next_done next_value t lg ! n =
     spec_delta a buf next_done next_value t n
     + gamma a * gae_lambda a * spec_nextnonterminal a buf next_done t n * x"
proof -
  let ?N = "nat (num_envs a)"
  have ns: "0 \<le> num_steps a" using sh by (simp add: shapes_ok_def)
  have r: "length (rewards buf ! t) = ?N" and v: "length (values_buf buf ! t) = ?N"
    using sh t by (auto simp: shapes_ok_def rows_ok_nth)
  have nx: "\<not> Suc t = nat (num_steps a) \<Longrightarrow> length (dones buf ! (t + 1)) = ?N
      \<and> length (values_buf buf ! (t + 1)) = ?N"
    using sh t by (auto simp: shapes_ok_def intro!: rows_ok_nth)
  have nd: "length next_done = ?N" "length next_value = ?N"
    using sh by (auto simp: shapes_ok_def)
  show ?thesis
    using r v nx nd lg n
    by (auto simp: gae_step_def Let_def t_add_def t_sub_def t_mul_def s_mul_def s_rsub_def
        bcast2_same_length bcast2_scalar_right last_step_iff[OF ns t]
        spec_delta_def spec_nextnonterminal_def spec_nextvalue_def)
qed

lemma gae_loop_length:
  "length (gae_loop a buf nd nv k lg adv) = length adv"
  by (induction k arbitrary: lg adv) (simp_all add: Let_def)

lemma gae_loop_above:
  "k \<le> j \<Longrightarrow> gae_loop a buf nd nv k lg adv ! j = adv ! j"
  by (induction k arbitrary: lg adv) (simp_all add: Let_def)

lemma gae_loop_rec:
  "k \<le> length adv \<Longrightarrow> t < k \<Longrightarrow>
     gae_loop a buf nd nv k lg adv ! t =
       gae_step a buf nd nv t (if Suc t = k then lg else gae_loop a buf nd nv k lg adv ! Suc t)"
proof (induction k arbitrary: lg adv)
  case 0
  then show ?case by simp
next
  case (Suc k)
  let ?lg = "gae_step a buf nd nv k lg"
  let ?R = "gae_loop a buf nd nv k ?lg (adv[k := ?lg])"
  have top: "?R ! k = ?lg"
    using Suc.prems by (simp add: gae_loop_above)
  show ?case
  proof (cases "t = k")
    case True
    then show ?thesis using top by (simp add: Let_def)
  next
    case False
    then have tk: "t < k" using Suc.prems by simp
    have "?R ! t = gae_step a buf nd nv t (if Suc t = k then ?lg else ?R ! Suc t)"
      using Suc.IH[of "adv[k := ?lg]" ?lg] Suc.prems tk by simp
    then show ?thesis using tk top by (auto simp: Let_def)
  qed
qed

lemma gae_loop_row_length:
  assumes sh: "shapes_ok a buf nd nv"
  shows "k \<le> nat (num_steps a) \<Longrightarrow> k \<le> length adv \<Longrightarrow>
     length lg = nat (num_envs a) \<or> lg = [0] \<Longrightarrow> t < k \<Longrightarrow>
     length (gae_loop a buf nd nv k lg adv ! t) = nat (num_envs a)"
proof (induction k arbitrary: lg adv)
  case 0
  then show ?case by simp
next
  case (Suc k)
  let ?lg = "gae_step a buf nd nv k lg"
  have len: "length ?lg = nat (num_envs a)"
    using gae_step_length[OF sh _ Suc.prems(3), of k] Suc.prems(1) by simp
  show ?case
  proof (cases "t = k")
    case True
    then show ?thesis using len Suc.prems by (simp add: Let_def gae_loop_above)
  next
    case False
    then have "t < k" using Suc.prems by simp
    then show ?thesis
      using Suc.IH[of "adv[k := ?lg]" ?lg] Suc.prems len by (simp add: Let_def)
  qed
qed

lemma zeros_like_length: "length (zeros_like m) = length m"
  by (simp add: zeros_like_def)


lemma example_shapes: "shapes_ok example_args example_buffer [1] [c]"
  by (simp add: shapes_ok_def rows_ok_def example_args_def example_buffer_def default_args_def)

lemma example_gae: "gae example_args"
  by (simp add: example_args_def default_args_def)

lemma example_advantages: "fst (advantage_estimator example_args example_buffer [1] [7]) = 
  [[51629921621 / 16000000000], [18984541 / 8000000], [5861 / 4000], [1 / 2]]"
  by (simp add: advantage_estimator_def example_args_def example_buffer_def default_args_def
     zeros_like_def gae_step_def Let_def t_add_def t_sub_def t_mul_def s_mul_def s_rsub_def bcast2_def eval_nat_numeral)


text \<open>
  C4. In GAE mode, for every step \<open>t\<close> of the segment and every environment \<open>n\<close>, the
  estimator's output obeys the backward recursion: \<open>advantage[t] = delta[t] +
  gamma * lambda * nextnonterminal * advantage[t+1]\<close>, where the accumulator is 0 at the
  last step \<open>t = T - 1\<close>, \<open>delta[t] = reward[t] + gamma * nextvalue * nextnonterminal -
  value[t]\<close>, the next value and the next non-terminal flag come from the bootstrap value
  and the done flag at the end of the segment when \<open>t = T - 1\<close> and from buffer row
  \<open>t + 1\<close> otherwise; and \<open>return[t] = advantage[t] + value[t]\<close>.
\<close>

theorem C4_gae_backward_recursion:
  assumes g: "gae a" and sh: "shapes_ok a buf next_done next_value"
    and res: "advantage_estimator a buf next_done next_value = (advantages, returns)"
    and t: "t < nat (num_steps a)" and n: "n < nat (num_envs a)"
  shows "advantages ! t ! n =
           spec_delta a buf next_done next_value t n
           + gamma a * gae_lambda a * spec_nextnonterminal a buf next_done t n
             * (if Suc t = nat (num_steps a) then 0 else advantages ! (t + 1) ! n)
         \<and> returns ! t ! n = advantages ! t ! n + values_buf buf ! t ! n"
proof -
  let ?T = "nat (num_steps a)" and ?N = "nat (num_envs a)"
  let ?A = "gae_loop a buf next_done next_value ?T [0] (zeros_like (rewards buf))"
  have adv: "advantages = ?A" and ret: "returns = map2 t_add ?A (values_buf buf)"
    using g res by (auto simp: advantage_estimator_def Let_def)
  have lz: "length (zeros_like (rewards buf)) = ?T"
    using sh by (simp add: zeros_like_length shapes_ok_def rows_ok_def)
  have lA: "length ?A = ?T" by (simp add: gae_loop_length lz)
  have lv: "length (values_buf buf) = ?T" "length (values_buf buf ! t) = ?N"
    using sh t by (auto simp: shapes_ok_def rows_ok_def list_all_length)
  have row: "\<And>s. s < ?T \<Longrightarrow> length (?A ! s) = ?N"
    using gae_loop_row_length[OF sh, of ?T "zeros_like (rewards buf)" "[0]"] lz by simp
  have step: "?A ! t = gae_step a buf next_done next_value t
      (if Suc t = ?T then [0] else ?A ! Suc t)"
    using gae_loop_rec[of ?T "zeros_like (rewards buf)" t] lz t by simp
  have one: "?A ! t ! n =
           spec_delta a buf next_done next_value t n
           + gamma a * gae_lambda a * spec_nextnonterminal a buf next_done t n
             * (if Suc t = ?T then 0 else ?A ! (t + 1) ! n)"
  proof (cases "Suc t = ?T")
    case True
    then show ?thesis
      using step gae_step_nth[OF sh t n, of "[0]" 0] by simp
  next
    case False
    then have "Suc t < ?T" using t by simp
    then have "length (?A ! Suc t) = ?N" by (rule row)
    then show ?thesis
      using False step gae_step_nth[OF sh t n, of "?A ! Suc t" "?A ! Suc t ! n"] by simp
  qed
  have two: "map2 t_add ?A (values_buf buf) ! t ! n = ?A ! t ! n + values_buf buf ! t ! n"
    using lA lv t n row[OF t] by (simp add: t_add_def bcast2_same_length)
  show ?thesis using one two adv ret by simp
qed

theorem C4_gae_backward_recursion_witness:
  "gae example_args \<and> shapes_ok example_args example_buffer [1] [7]
   \<and> (2::nat) < nat (num_steps example_args) \<and> (0::nat) < nat (num_envs example_args)
   \<and> fst (advantage_estimator example_args example_buffer [1] [7]) ! 2 ! 0 =
        spec_delta example_args example_buffer [1] [7] 2 0
        + gamma example_args * gae_lambda example_args
          * spec_nextnonterminal example_args example_buffer [1] 2 0
          * fst (advantage_estimator example_args example_buffer [1] [7]) ! 3 ! 0
   \<and> snd (advantage_estimator example_args example_buffer [1] [7]) ! 2 ! 0 =
        fst (advantage_estimator example_args example_buffer [1] [7]) ! 2 ! 0 + 1 / 2"
proof -
  have t: "(2::nat) < nat (num_steps example_args)" and n: "(0::nat) < nat (num_envs example_args)"
    by (simp_all add: example_args_def)
  have v: "values_buf example_buffer ! 2 ! 0 = 1 / 2" by (simp add: example_buffer_def)
  have s: "Suc 2 \<noteq> nat (num_steps example_args)" by (simp add: example_args_def)
  show ?thesis
    using C4_gae_backward_recursion[OF example_gae example_shapes _ t n,
      of 7 "fst (advantage_estimator example_args example_buffer [1] [7])"
           "snd (advantage_estimator example_args example_buffer [1] [7])"]
      example_gae example_shapes[of 7] t n v s
    by simp
qed

text \<open>The float model of the GAE branch agrees with the model over the reals on finite tensors.\<close>

lemma bcast2_map:
  assumes "\<And>x y. g (h x) (h y) = h (f x y)"
  shows "bcast2 g (map h u) (map h v) = map h (bcast2 f u v)"
proof -
  have hu: "length u = 1 \<Longrightarrow> hd (map h u) = h (hd u)" by (cases u) simp_all
  have hv: "length v = 1 \<Longrightarrow> hd (map h v) = h (hd v)" by (cases v) simp_all
  show ?thesis
    using assms hu hv by (auto simp: bcast2_def zip_map_map comp_def split_def)
qed

lemma fs_mul_Fin: "fs_mul c (map Fin v) = map Fin (s_mul c v)"
  by (simp add: fs_mul_def s_mul_def)

lemma fs_rsub_Fin: "fs_rsub c (map Fin v) = map Fin (s_rsub c v)"
  by (simp add: fs_rsub_def s_rsub_def fl_sub_def)

lemma ft_add_Fin: "ft_add (map Fin u) (map Fin v) = map Fin (t_add u v)"
  unfolding ft_add_def t_add_def by (rule bcast2_map) simp

lemma ft_sub_Fin: "ft_sub (map Fin u) (map Fin v) = map Fin (t_sub u v)"
  unfolding ft_sub_def t_sub_def by (rule bcast2_map) (simp add: fl_sub_def)

lemma ft_mul_Fin: "ft_mul (map Fin u) (map Fin v) = map Fin (t_mul u v)"
  unfolding ft_mul_def t_mul_def by (rule bcast2_map) simp

lemma gae_step_fl_finite:
  assumes sh: "shapes_ok a buf nd nv" and t: "t < nat (num_steps a)"
  shows "gae_step_fl a (float_of_buffer buf) (map Fin nd) (map Fin nv) t (map Fin lg)
         = map Fin (gae_step a buf nd nv t lg)"
proof -
  have ns: "0 \<le> num_steps a" using sh by (simp add: shapes_ok_def)
  have l: "t < length (rewards buf)" "t < length (values_buf buf)"
    using sh t by (simp_all add: shapes_ok_def rows_ok_def)
  have nx: "int t \<noteq> num_steps a - 1 \<Longrightarrow>
      t + 1 < length (dones buf) \<and> t + 1 < length (values_buf buf)"
    using sh t by (auto simp: shapes_ok_def rows_ok_def)
  show ?thesis
    using l nx
    by (simp add: gae_step_fl_def gae_step_def float_of_buffer_def Let_def
        fs_mul_Fin fs_rsub_Fin ft_add_Fin ft_sub_Fin ft_mul_Fin)
qed

lemma gae_loop_fl_finite:
  assumes sh: "shapes_ok a buf nd nv"
  shows "k \<le> nat (num_steps a) \<Longrightarrow>
     gae_loop_fl a (float_of_buffer buf) (map Fin nd) (map Fin nv) k (map Fin lg)
       (map (map Fin) adv)
     = map (map Fin) (gae_loop a buf nd nv k lg adv)"
proof (induction k arbitrary: lg adv)
  case 0
  then show ?case by simp
next
  case (Suc k)
  have k: "k < nat (num_steps a)" using Suc.prems by simp
  show ?case
    using Suc.IH[of "gae_step a buf nd nv k lg" "adv[k := gae_step a buf nd nv k lg]"] k
    by (simp add: Let_def gae_step_fl_finite[OF sh k] map_update)
qed

lemma gae_advantages_fl_finite:
  assumes "gae a" and sh: "shapes_ok a buf nd nv"
  shows "gae_advantages_fl a (float_of_buffer buf) (map Fin nd) (map Fin nv)
         = map (map Fin) (fst (advantage_estimator a buf nd nv))"
proof -
  have z: "map (map (\<lambda>_. Fin 0)) (f_rewards (float_of_buffer buf))
      = map (map Fin) (zeros_like (rewards buf))"
    by (simp add: float_of_buffer_def zeros_like_def comp_def)
  show ?thesis
    using assms(1) gae_loop_fl_finite[OF sh, of "nat (num_steps a)" "[0]" "zeros_like (rewards buf)"]
    by (simp add: gae_advantages_fl_def advantage_estimator_def Let_def z)
qed

lemma fl_add_zero_right: "fl_add x (Fin 0) = x"
  by (cases x) simp_all

lemma ft_add_zeros:
  "length u = N \<Longrightarrow> ft_add u (replicate N (Fin 0)) = u"
  by (auto simp: ft_add_def bcast2_same_length fl_add_zero_right intro: nth_equalityI)

lemma gae_step_fl_all_done:
  assumes sh: "shapes_ok_fl a buf next_done (map Fin nv)"
    and dn: "list_all (\<lambda>d. d = Fin 1) next_done"
    and T: "Suc t = nat (num_steps a)"
  shows "gae_step_fl a buf next_done (map Fin nv) t [Fin 0]
         = ft_sub (f_rewards buf ! t) (f_values buf ! t)"
proof -
  let ?N = "nat (num_envs a)"
  have t: "t < nat (num_steps a)" using T by simp
  have ns: "0 \<le> num_steps a" using sh by (simp add: shapes_ok_fl_def)
  have r: "length (f_rewards buf ! t) = ?N" and v: "length (f_values buf ! t) = ?N"
    using sh t by (auto simp: shapes_ok_fl_def rows_ok_nth)
  have nd: "length next_done = ?N" "length nv = ?N"
    using sh by (auto simp: shapes_ok_fl_def)
  have ones: "next_done = replicate ?N (Fin 1)"
    using dn nd(1) by (auto simp: list_all_length intro: nth_equalityI)
  have nnt: "fs_rsub 1 next_done = replicate ?N (Fin 0)"
    by (simp add: ones fs_rsub_def fl_sub_def)
  have z1: "ft_mul (fs_mul (gamma a) (map Fin nv)) (replicate ?N (Fin 0)) = replicate ?N (Fin 0)"
    using nd by (auto simp: ft_mul_def fs_mul_def bcast2_same_length intro: nth_equalityI)
  have z2: "ft_mul (fs_mul (gamma a * gae_lambda a) (replicate ?N (Fin 0))) [Fin 0]
      = replicate ?N (Fin 0)"
    by (auto simp: ft_mul_def fs_mul_def bcast2_scalar_right intro: nth_equalityI)
  have ls: "length (ft_sub (f_rewards buf ! t) (f_values buf ! t)) = ?N"
    using r v by (simp add: ft_sub_def bcast2_same_length)
  show ?thesis
    using T last_step_iff[OF ns t] nnt z1 z2 ft_add_zeros[OF r] ft_add_zeros[OF ls]
    by (simp add: gae_step_fl_def Let_def)
qed

lemma gae_loop_fl_above:
  "k \<le> j \<Longrightarrow> gae_loop_fl a buf nd nv k lg adv ! j = adv ! j"
  by (induction k arbitrary: lg adv) (simp_all add: Let_def)

lemma gae_loop_fl_indep:
  "int k \<le> num_steps a - 1 \<Longrightarrow>
     gae_loop_fl a buf nd nv k lg adv = gae_loop_fl a buf nd' nv' k lg adv"
proof (induction k arbitrary: lg adv)
  case 0
  then show ?case by simp
next
  case (Suc k)
  have "gae_step_fl a buf nd nv k lg = gae_step_fl a buf nd' nv' k lg"
    using Suc.prems by (simp add: gae_step_fl_def)
  then show ?case using Suc by (simp add: Let_def)
qed

text \<open>
  C5, as claimed: when every environment is done at the end of the segment, the advantage
  of the last step is \<open>reward[T-1] - value[T-1]\<close> whatever bootstrap value is supplied.
  The code multiplies the bootstrap value by the zero flag, and an infinite value times
  zero is nan: with the bootstrap value \<open>inf\<close> the last advantage (and with it the whole
  table) is nan, where \<open>reward[T-1] - value[T-1]\<close> and the result for the bootstrap
  value 7 are both 0.5.
\<close>

theorem C5_counterexample:
  "list_all (\<lambda>d. d = Fin 1) [Fin 1]
   \<and> gae_advantages_fl example_args (float_of_buffer example_buffer) [Fin 1] [PInf] ! 3 ! 0 = NaN
   \<and> gae_advantages_fl example_args (float_of_buffer example_buffer) [Fin 1] [Fin 7] ! 3 ! 0
       = Fin (1 / 2)
   \<and> fl_sub (f_rewards (float_of_buffer example_buffer) ! 3 ! 0)
        (f_values (float_of_buffer example_buffer) ! 3 ! 0) = Fin (1 / 2)"
  by (simp add: gae_advantages_fl_def float_of_buffer_def example_args_def example_buffer_def
      default_args_def gae_step_fl_def Let_def ft_add_def ft_sub_def ft_mul_def fs_mul_def
      fs_rsub_def fl_sub_def fl_inf_times_def bcast2_def eval_nat_numeral)

lemma example_shapes_fl:
  "shapes_ok_fl example_args (float_of_buffer example_buffer) [Fin 1] (map Fin [c])"
  by (simp add: shapes_ok_fl_def rows_ok_def example_args_def example_buffer_def
      float_of_buffer_def default_args_def)

text \<open>
  C5, amended: when every environment is done at the end of the segment, then for every
  finite bootstrap value the advantage of the last step is \<open>reward[T-1] - value[T-1]\<close>,
  and the advantages are the same for any two finite bootstrap values supplied.
\<close>

theorem C5_terminal_segment_ignores_finite_bootstrap:
  assumes sh1: "shapes_ok_fl a buf next_done (map Fin nv1)"
    and sh2: "shapes_ok_fl a buf next_done (map Fin nv2)"
    and dn: "list_all (\<lambda>d. d = Fin 1) next_done"
    and T: "0 < num_steps a" and n: "n < nat (num_envs a)"
  shows "gae_advantages_fl a buf next_done (map Fin nv1) ! (nat (num_steps a) - 1) ! n
           = fl_sub (f_rewards buf ! (nat (num_steps a) - 1) ! n)
               (f_values buf ! (nat (num_steps a) - 1) ! n)
         \<and> gae_advantages_fl a buf next_done (map Fin nv1)
           = gae_advantages_fl a buf next_done (map Fin nv2)"
proof -
  let ?T = "nat (num_steps a)" and ?N = "nat (num_envs a)"
  obtain k where k: "?T = Suc k" using T by (cases ?T) auto
  let ?row = "ft_sub (f_rewards buf ! k) (f_values buf ! k)"
  let ?Z = "map (map (\<lambda>_. Fin 0)) (f_rewards buf)"
  let ?f1 = "map Fin nv1" and ?f2 = "map Fin nv2"
  have lz: "length ?Z = ?T"
    using sh1 by (simp add: shapes_ok_fl_def rows_ok_def)
  have s1: "gae_step_fl a buf next_done ?f1 k [Fin 0] = ?row"
    using gae_step_fl_all_done[OF sh1 dn] k by simp
  have s2: "gae_step_fl a buf next_done ?f2 k [Fin 0] = ?row"
    using gae_step_fl_all_done[OF sh2 dn] k by simp
  have kk: "int k \<le> num_steps a - 1" using k by linarith
  have A1: "gae_loop_fl a buf next_done ?f1 ?T [Fin 0] ?Z
      = gae_loop_fl a buf next_done ?f1 k ?row (?Z[k := ?row])"
    using s1 k by (simp add: Let_def)
  have A2: "gae_loop_fl a buf next_done ?f2 ?T [Fin 0] ?Z
      = gae_loop_fl a buf next_done ?f2 k ?row (?Z[k := ?row])"
    using s2 k by (simp add: Let_def)
  have eq: "gae_loop_fl a buf next_done ?f1 ?T [Fin 0] ?Z
      = gae_loop_fl a buf next_done ?f2 ?T [Fin 0] ?Z"
    using A1 A2 gae_loop_fl_indep[OF kk, of buf next_done ?f1 ?row "?Z[k := ?row]" next_done ?f2]
    by simp
  have last: "gae_loop_fl a buf next_done ?f1 ?T [Fin 0] ?Z ! k = ?row"
    using A1 lz k by (simp add: gae_loop_fl_above)
  have r: "length (f_rewards buf ! k) = ?N" and v: "length (f_values buf ! k) = ?N"
    using sh1 k by (auto simp: shapes_ok_fl_def rows_ok_nth)
  have "?row ! n = fl_sub (f_rewards buf ! k ! n) (f_values buf ! k ! n)"
    using r v n by (simp add: ft_sub_def bcast2_same_length)
  then show ?thesis
    using eq last k by (simp add: gae_advantages_fl_def)
qed

theorem C5_terminal_segment_ignores_finite_bootstrap_witness:
  "shapes_ok_fl example_args (float_of_buffer example_buffer) [Fin 1] (map Fin [7])
   \<and> shapes_ok_fl example_args (float_of_buffer example_buffer) [Fin 1] (map Fin [- 3])
   \<and> list_all (\<lambda>d. d = Fin 1) [Fin 1] \<and> 0 < num_steps example_args
   \<and> (0::nat) < nat (num_envs example_args)
   \<and> gae_advantages_fl example_args (float_of_buffer example_buffer) [Fin 1] (map Fin [7]) ! 3 ! 0
       = Fin (1 / 2)
   \<and> gae_advantages_fl example_args (float_of_buffer example_buffer) [Fin 1] (map Fin [7])
     = gae_advantages_fl example_args (float_of_buffer example_buffer) [Fin 1] (map Fin [- 3])"
proof -
  have T: "0 < num_steps example_args" and n: "(0::nat) < nat (num_envs example_args)"
    and T3: "nat (num_steps example_args) - 1 = 3"
    by (simp_all add: example_args_def)
  have dn: "list_all (\<lambda>d. d = Fin 1) [Fin 1]" by simp
  have rv: "fl_sub (f_rewards (float_of_buffer example_buffer) ! 3 ! 0)
      (f_values (float_of_buffer example_buffer) ! 3 ! 0) = Fin (1 / 2)"
    by (simp add: example_buffer_def float_of_buffer_def fl_sub_def)
  note c0 = C5_terminal_segment_ignores_finite_bootstrap[OF example_shapes_fl example_shapes_fl
      dn T n, of 7 "- 3"]
  have c1: "gae_advantages_fl example_args (float_of_buffer example_buffer) [Fin 1]
      (map Fin [7]) ! 3 ! 0 = Fin (1 / 2)"
    using c0[THEN conjunct1] unfolding T3 rv .
  have c2: "gae_advantages_fl example_args (float_of_buffer example_buffer) [Fin 1] (map Fin [7])
     = gae_advantages_fl example_args (float_of_buffer example_buffer) [Fin 1] (map Fin [- 3])"
    using c0[THEN conjunct2] .
  show ?thesis
    using c1 c2 example_shapes_fl[of 7] example_shapes_fl[of "- 3"] dn T n
    by (intro conjI) assumption+
qed

subsection \<open>Epochs and minibatch indices\<close>

lemma range_len_multiple:
  assumes m: "0 < m" and n: "0 \<le> n"
  shows "range_len 0 (n * m) m = nat n"
proof (cases "n = 0")
  case True
  then show ?thesis by (simp add: range_len_def m)
next
  case False
  then have n1: "1 \<le> n" using n by simp
  have pos: "0 < n * m" using n1 m by (simp add: zero_less_mult_iff)
  have e: "n * m - 1 = (n - 1) * m + (m - 1)" by (simp add: algebra_simps)
  have "((n - 1) * m + (m - 1)) div m = n - 1"
    using m by (simp add: div_pos_pos_trivial)
  then have "(n * m - 1) div m = n - 1" by (simp only: e)
  then show ?thesis using m pos n1 by (simp add: range_len_def)
qed

lemma py_range_multiple:
  "0 < m \<Longrightarrow> 0 \<le> n \<Longrightarrow> py_range 0 (n * m) m = Inr (map (\<lambda>k. int k * m) [0..<nat n])"
  by (simp add: py_range_def range_len_multiple)

lemma py_slice_nonneg:
  "0 \<le> s \<Longrightarrow> 0 \<le> e \<Longrightarrow> py_slice xs s e = drop (nat s) (take (nat e) xs)"
  by (auto simp: py_slice_def slice_bound_def min_def)

lemma concat_slices_take:
  "n * m \<le> length xs \<Longrightarrow>
     concat (map (\<lambda>k. drop (k * m) (take (k * m + m) xs)) [0..<n]) = take (n * m) xs"
proof (induction n)
  case 0
  then show ?case by simp
next
  case (Suc n)
  have "take (n * m) xs @ drop (n * m) (take (n * m + m) xs) = take (n * m + m) xs"
    by (metis append_take_drop_id le_add1 min.absorb1 take_take)
  then show ?case using Suc by (simp add: add.commute)
qed

lemma shuffle_mset:
  assumes "is_permutation (length xs) p"
  shows "mset (np_random_shuffle p xs) = mset xs"
proof -
  have "mset p = mset [0..<length xs]"
    using assms by (metis is_permutation_def mset_sort)
  then have "mset (map (\<lambda>i. xs ! i) p) = mset (map (\<lambda>i. xs ! i) [0..<length xs])"
    by (metis mset_map)
  then show ?thesis by (simp add: np_random_shuffle_def map_nth)
qed

lemma shuffle_length:
  "is_permutation n p \<Longrightarrow> length (np_random_shuffle p xs) = n"
  by (metis is_permutation_def length_map length_sort length_upt minus_nat.diff_0 np_random_shuffle_def)

lemma minibatch_inds_partition:
  assumes m: "0 < minibatch_size a" and n: "0 \<le> n"
    and B: "batch_size a = n * minibatch_size a"
    and len: "int (length b) = batch_size a"
  shows "\<exists>mbs. minibatch_inds a b = Inr mbs \<and> length mbs = nat n
     \<and> list_all (\<lambda>mb. length mb = nat (minibatch_size a)) mbs \<and> concat mbs = b"
proof -
  let ?m = "minibatch_size a"
  let ?f = "\<lambda>k. drop (k * nat ?m) (take (k * nat ?m + nat ?m) b)"
  let ?mbs = "map ?f [0..<nat n]"
  have lb: "length b = nat n * nat ?m"
    using len B m n by (metis nat_int nat_mult_distrib)
  have sl: "\<And>k. py_slice b (int k * ?m) (int k * ?m + ?m) = ?f k"
    using m by (simp add: py_slice_nonneg nat_mult_distrib nat_add_distrib)
  have r: "minibatch_inds a b = Inr ?mbs"
    using m n B by (simp add: minibatch_inds_def py_range_multiple sl comp_def)
  have c: "concat ?mbs = b"
    using concat_slices_take[of "nat n" "nat ?m" b] lb by simp
  have l: "list_all (\<lambda>mb. length mb = nat ?m) ?mbs"
  proof -
    have "\<And>k. k < nat n \<Longrightarrow> k * nat ?m + nat ?m \<le> length b"
    proof -
      fix k assume "k < nat n"
      then have "Suc k \<le> nat n" by simp
      then have "Suc k * nat ?m \<le> nat n * nat ?m" by (rule mult_le_mono1)
      then show "k * nat ?m + nat ?m \<le> length b" using lb by (simp add: add.commute)
    qed
    then show ?thesis by (auto simp: list_all_iff)
  qed
  show ?thesis using r c l by simp
qed

lemma np_arange_length: "length (np_arange n) = nat n"
  by (simp add: np_arange_def)

lemma np_arange_distinct: "distinct (np_arange n)"
  by (simp add: np_arange_def distinct_map inj_on_def)

lemma np_arange_set: "set (np_arange n) = {0..<n}"
  by (cases "0 \<le> n") (simp_all add: np_arange_def image_int_atLeastLessThan)

lemma epoch_inds_partition:
  assumes m: "0 < minibatch_size a" and n: "0 \<le> n"
    and B: "batch_size a = n * minibatch_size a"
    and dr: "\<forall>e. is_permutation (nat (batch_size a)) (draw e)"
  shows "length b = nat (batch_size a) \<Longrightarrow> mset b = mset (np_arange (batch_size a)) \<Longrightarrow>
     \<exists>ms. epoch_inds a draw es b = Inr ms \<and> length ms = length es
       \<and> list_all (\<lambda>mbs. length mbs = nat n
            \<and> list_all (\<lambda>mb. length mb = nat (minibatch_size a)) mbs
            \<and> mset (concat mbs) = mset (np_arange (batch_size a))) ms"
proof (induction es arbitrary: b)
  case Nil
  then show ?case by simp
next
  case (Cons e es)
  let ?b = "np_random_shuffle (draw e) b"
  have Bn: "0 \<le> batch_size a" using m n B by simp
  have de: "is_permutation (nat (batch_size a)) (draw e)" using dr by simp
  have l: "length ?b = nat (batch_size a)"
    using de by (rule shuffle_length)
  have ms: "mset ?b = mset (np_arange (batch_size a))"
    using shuffle_mset[of b "draw e"] de Cons.prems by simp
  have li: "int (length ?b) = batch_size a" using l Bn by simp
  obtain mbs where mbs: "minibatch_inds a ?b = Inr mbs" "length mbs = nat n"
      "list_all (\<lambda>mb. length mb = nat (minibatch_size a)) mbs" "concat mbs = ?b"
    using minibatch_inds_partition[OF m n B li] by blast
  obtain r where r: "epoch_inds a draw es ?b = Inr r" "length r = length es"
      "list_all (\<lambda>mbs. length mbs = nat n
            \<and> list_all (\<lambda>mb. length mb = nat (minibatch_size a)) mbs
            \<and> mset (concat mbs) = mset (np_arange (batch_size a))) r"
    using Cons.IH[OF l ms] by blast
  show ?case using mbs r ms by (simp add: Let_def)
qed

lemma parse_args_fields:
  assumes "parse_args c = Inr a"
  shows "batch_size a = num_envs c * num_steps c"
    and "minibatch_size a = batch_size a div num_minibatches a"
    and "num_minibatches a = num_minibatches c"
    and "update_epochs a = update_epochs c"
  using assms by (auto simp: parse_args_def Let_def split: if_splits)


lemma example_parse:
  "parse_args example_cli = Inr (example_cli\<lparr>batch_size := 6, minibatch_size := 2\<rparr>)"
  by (simp add: parse_args_def example_cli_def default_args_def)

lemma example_draw_permutation: "is_permutation 6 (example_draw epoch)"
  by (simp add: is_permutation_def example_draw_def upt_rec)

lemma example_update_inds: "update_inds (example_cli\<lparr>batch_size := 6, minibatch_size := 2\<rparr>) example_draw
  = Inr [[[5, 4], [3, 2], [1, 0]], [[4, 5], [2, 3], [0, 1]]]"
  by (simp add: update_inds_def example_cli_def default_args_def example_draw_def
     np_arange_def np_random_shuffle_def minibatch_inds_def py_range_def range_len_def
     py_slice_def slice_bound_def upt_rec Let_def)

lemma epoch_inds_reshuffled:
  assumes m: "0 < minibatch_size a" and n: "0 \<le> n"
    and B: "batch_size a = n * minibatch_size a"
    and dr: "\<forall>e. is_permutation (nat (batch_size a)) (draw e)"
  shows "epoch_inds a draw es b = Inr ms \<Longrightarrow> i < length ms \<Longrightarrow>
     concat (ms ! i) =
       np_random_shuffle (draw (es ! i)) (if i = 0 then b else concat (ms ! (i - 1)))"
proof (induction es arbitrary: b ms i)
  case Nil
  then show ?case by simp
next
  case (Cons e es)
  let ?b = "np_random_shuffle (draw e) b"
  have Bn: "0 \<le> batch_size a" using m n B by simp
  have de: "is_permutation (nat (batch_size a)) (draw e)" using dr by simp
  have li: "int (length ?b) = batch_size a"
    using shuffle_length[OF de, of b] Bn by simp
  obtain mbs where mbs: "minibatch_inds a ?b = Inr mbs" "concat mbs = ?b"
    using minibatch_inds_partition[OF m n B li] by blast
  obtain r where r: "epoch_inds a draw es ?b = Inr r" and ms: "ms = mbs # r"
    using Cons.prems(1) mbs(1) by (auto simp: Let_def split: sum.splits)
  show ?case
  proof (cases i)
    case 0
    then show ?thesis using ms mbs(2) by simp
  next
    case (Suc j)
    then have j: "j < length r" using Cons.prems(2) ms by simp
    have "concat (r ! j) =
        np_random_shuffle (draw (es ! j)) (if j = 0 then ?b else concat (r ! (j - 1)))"
      using Cons.IH[OF r j] .
    then show ?thesis using Suc ms mbs(2) by (cases j) simp_all
  qed
qed

text \<open>
  C6, as claimed: whenever the number of minibatches divides the batch size, the slices
  of every epoch cover every index exactly once. A negative number of minibatches
  divides too and is accepted: with a batch of 6 and \<open>num_minibatches = -3\<close> the minibatch
  size is \<open>-2\<close>, \<^verbatim>\<open>range(0, 6, -2)\<close> is empty, and both epochs run without a single
  minibatch, so no index is covered.
\<close>

theorem C6_counterexample:
  "parse_args (example_cli\<lparr>num_minibatches := - 3\<rparr>)
     = Inr (example_cli\<lparr>num_minibatches := - 3, batch_size := 6, minibatch_size := - 2\<rparr>)
   \<and> (- 3 :: int) dvd 6
   \<and> is_permutation 6 (example_draw 0) \<and> is_permutation 6 (example_draw 1)
   \<and> update_inds (example_cli\<lparr>num_minibatches := - 3, batch_size := 6, minibatch_size := - 2\<rparr>)
        example_draw = Inr [[], []]"
  by (simp add: parse_args_def example_cli_def default_args_def example_draw_permutation
      update_inds_def minibatch_inds_def py_range_def range_len_def upt_rec Let_def)

text \<open>
  C6, amended: for a positive batch size and a positive number of minibatches that
  divides it, every epoch of an update starts by reshuffling the index array (the array
  of an epoch is the array the previous epoch left, \<open>0, ..., batch_size - 1\<close> for the
  first, rearranged by the permutation the generator draws in that epoch), and cuts it
  into \<open>num_minibatches\<close> contiguous slices of \<open>minibatch_size\<close> indices each, which
  together hold every index \<open>0, ..., batch_size - 1\<close> exactly once. That the permutation
  drawn is random is the generator's property, not the script's.
\<close>

theorem C6_every_epoch_reshuffles_and_partitions:
  assumes p: "parse_args c = Inr a"
    and B: "0 < batch_size a" and nm: "0 < num_minibatches a"
    and dv: "num_minibatches a dvd batch_size a"
    and dr: "\<forall>epoch. is_permutation (nat (batch_size a)) (draw epoch)"
  shows "\<exists>ms. update_inds a draw = Inr ms \<and> length ms = nat (update_epochs a)
     \<and> list_all (\<lambda>mbs. length mbs = nat (num_minibatches a)
          \<and> list_all (\<lambda>mb. length mb = nat (minibatch_size a)) mbs
          \<and> mset (concat mbs) = mset (np_arange (batch_size a))
          \<and> distinct (concat mbs)
          \<and> set (concat mbs) = {0..<batch_size a}) ms
     \<and> (\<forall>epoch<length ms. concat (ms ! epoch) =
           np_random_shuffle (draw epoch)
             (if epoch = 0 then np_arange (batch_size a) else concat (ms ! (epoch - 1))))"
proof -
  let ?n = "num_minibatches a" and ?m = "minibatch_size a"
  have md: "?m = batch_size a div ?n" using p by (rule parse_args_fields)
  have Bm: "batch_size a = ?n * ?m" using md dv by simp
  have m: "0 < ?m" using B nm Bm by (metis zero_less_mult_pos)
  have n: "0 \<le> ?n" using nm by simp
  obtain ms where ms: "update_inds a draw = Inr ms" "length ms = nat (update_epochs a)"
      "list_all (\<lambda>mbs. length mbs = nat ?n
            \<and> list_all (\<lambda>mb. length mb = nat ?m) mbs
            \<and> mset (concat mbs) = mset (np_arange (batch_size a))) ms"
    using epoch_inds_partition[OF m n Bm dr, where b = "np_arange (batch_size a)"
        and es = "[0..<nat (update_epochs a)]"]
    by (auto simp: update_inds_def np_arange_length)
  have ext: "\<And>xs. mset xs = mset (np_arange (batch_size a)) \<Longrightarrow>
      distinct xs \<and> set xs = {0..<batch_size a}"
    by (metis mset_eq_imp_distinct_iff mset_eq_setD np_arange_distinct np_arange_set)
  have part: "list_all (\<lambda>mbs. length mbs = nat ?n
          \<and> list_all (\<lambda>mb. length mb = nat ?m) mbs
          \<and> mset (concat mbs) = mset (np_arange (batch_size a))
          \<and> distinct (concat mbs)
          \<and> set (concat mbs) = {0..<batch_size a}) ms"
    using ms(3) by (rule list.pred_mono_strong) (use ext in blast)
  have chain: "concat (ms ! epoch) =
           np_random_shuffle (draw epoch)
             (if epoch = 0 then np_arange (batch_size a) else concat (ms ! (epoch - 1)))"
    if e: "epoch < length ms" for epoch
  proof -
    have "epoch_inds a draw [0..<nat (update_epochs a)] (np_arange (batch_size a)) = Inr ms"
      using ms(1) by (simp add: update_inds_def)
    from epoch_inds_reshuffled[OF m n Bm dr this e]
    show ?thesis using e ms(2) by simp
  qed
  show ?thesis using ms(1,2) part chain by blast
qed

theorem C6_every_epoch_reshuffles_and_partitions_witness:
  "parse_args example_cli = Inr example_parsed
   \<and> 0 < batch_size example_parsed \<and> 0 < num_minibatches example_parsed
   \<and> num_minibatches example_parsed dvd batch_size example_parsed
   \<and> (\<forall>epoch. is_permutation (nat (batch_size example_parsed)) (example_draw epoch))
   \<and> (\<exists>ms. update_inds example_parsed example_draw = Inr ms
        \<and> length ms = nat (update_epochs example_parsed)
        \<and> list_all (\<lambda>mbs. length mbs = nat (num_minibatches example_parsed)
             \<and> list_all (\<lambda>mb. length mb = nat (minibatch_size example_parsed)) mbs
             \<and> mset (concat mbs) = mset (np_arange (batch_size example_parsed))
             \<and> distinct (concat mbs)
             \<and> set (concat mbs) = {0..<batch_size example_parsed}) ms
        \<and> (\<forall>epoch<length ms. concat (ms ! epoch) =
              np_random_shuffle (example_draw epoch)
                (if epoch = 0 then np_arange (batch_size example_parsed)
                 else concat (ms ! (epoch - 1)))))"
proof -
  have h1: "parse_args example_cli = Inr example_parsed"
    by (simp add: example_parse example_parsed_def)
  have h2: "0 < batch_size example_parsed" and h3: "0 < num_minibatches example_parsed"
    and h4: "num_minibatches example_parsed dvd batch_size example_parsed"
    by (simp_all add: example_parsed_def example_cli_def)
  have h5: "\<forall>epoch. is_permutation (nat (batch_size example_parsed)) (example_draw epoch)"
    by (simp add: example_parsed_def example_draw_permutation)
  note c = C6_every_epoch_reshuffles_and_partitions[OF h1 h2 h3 h4 h5]
  show ?thesis
    using h1 h2 h3 h4 h5 c by (intro conjI) assumption+
qed

subsection \<open>The Beta policy\<close>

lemma scale_row_bounds:
  fixes x l h :: real
  assumes "0 \<le> x" "x \<le> 1" "l \<le> h"
  shows "l \<le> x * (h - l) + l \<and> x * (h - l) + l \<le> h"
proof -
  have a: "0 \<le> x * (h - l)" using assms by simp
  have "x * (h - l) \<le> 1 * (h - l)" using assms by (intro mult_right_mono) simp_all
  then show ?thesis using a by simp
qed

lemma scale_row_length:
  assumes "length row = length low" "length high = length low"
  shows "length (t_add (t_mul row (t_sub high low)) low) = length low"
  using assms by (simp add: t_add_def t_mul_def t_sub_def bcast2_same_length)

lemma scale_row_nth:
  assumes "length row = length low" "length high = length low" "i < length low"
  shows "t_add (t_mul row (t_sub high low)) low ! i = row ! i * (high ! i - low ! i) + low ! i"
  using assms by (simp add: t_add_def t_mul_def t_sub_def bcast2_same_length)

lemma inv_scale_row:
  assumes lr: "length row = length low" and lh: "length high = length low"
    and ne: "\<forall>i<length low. low ! i < high ! i"
  shows "map2 fl_div (t_sub (t_add (t_mul row (t_sub high low)) low) low) (t_sub high low)
         = map Fin row"
proof (rule nth_equalityI)
  show "length (map2 fl_div (t_sub (t_add (t_mul row (t_sub high low)) low) low)
      (t_sub high low)) = length (map Fin row)"
    using lr lh by (simp add: t_add_def t_mul_def t_sub_def bcast2_same_length)
next
  fix i
  assume "i < length (map2 fl_div (t_sub (t_add (t_mul row (t_sub high low)) low) low)
      (t_sub high low))"
  then have i: "i < length low"
    using lr lh by (simp add: t_add_def t_mul_def t_sub_def bcast2_same_length)
  then have "high ! i - low ! i \<noteq> 0" using ne by auto
  then show "map2 fl_div (t_sub (t_add (t_mul row (t_sub high low)) low) low)
      (t_sub high low) ! i = map Fin row ! i"
    using i lr lh by (simp add: t_add_def t_mul_def t_sub_def bcast2_same_length fl_div_def)
qed

text \<open>
  C7, as claimed: the inverse rescaling undoes the rescaling for every \<open>x\<close> in the unit
  cube. It does not when a dimension has \<open>low = high\<close>: the rescaled sample is \<open>low\<close>, and
  the inverse divides \<open>0\<close> by \<open>0\<close>, which is nan and not \<open>x\<close>.
\<close>

theorem C7_counterexample:
  "list_all (list_all (\<lambda>u. 0 \<le> u \<and> u \<le> 1)) [[1 / 2 :: real]]
   \<and> inv_scale_by_action_bounds degenerate_agent
        (scale_by_action_bounds degenerate_agent [[1 / 2]]) = [[NaN]]"
  by (simp add: inv_scale_by_action_bounds_def scale_by_action_bounds_def degenerate_agent_def
      t_add_def t_mul_def t_sub_def bcast2_def fl_div_def)

text \<open>
  C7, amended: for action bounds with \<open>low < high\<close> in every dimension, the inverse
  rescaling undoes the rescaling for every \<open>x\<close> in the unit cube, exactly in real
  arithmetic; and the action \<^verbatim>\<open>get_action_and_value\<close> returns when it samples (the
  rescaled sample of the Beta distribution, which lies in the unit cube) lies within
  \<open>[low, high]\<close> in every dimension. The method returns that action whenever torch
  accepts the shape parameters (as it does \<open>alpha, beta > 1\<close>) and raises otherwise.
\<close>

theorem C7_rescaling_roundtrip_and_bounds:
  assumes bounds: "list_all2 (\<lambda>l h. l < h) (action_space_low ag) (action_space_high ag)"
    and rows: "list_all (\<lambda>row. length row = length (action_space_low ag)) x"
    and unit: "list_all (list_all (\<lambda>u. 0 \<le> u \<and> u \<le> 1)) x"
  shows "inv_scale_by_action_bounds ag (scale_by_action_bounds ag x) = map (map Fin) x
     \<and> outcome (get_action_and_value ag alpha beta x None) =
         (if beta_args_valid alpha beta then Inr (scale_by_action_bounds ag x)
          else Inl ValueError)
     \<and> list_all (\<lambda>row. list_all2 (\<le>) (action_space_low ag) row
                       \<and> list_all2 (\<le>) row (action_space_high ag))
         (scale_by_action_bounds ag x)"
proof -
  let ?low = "action_space_low ag" and ?high = "action_space_high ag"
  have lh: "length ?high = length ?low"
    using bounds by (simp add: list_all2_lengthD)
  have ne: "\<forall>i<length ?low. ?low ! i < ?high ! i"
    using bounds by (simp add: list_all2_conv_all_nth)
  have rt: "inv_scale_by_action_bounds ag (scale_by_action_bounds ag x) = map (map Fin) x"
    using rows inv_scale_row[OF _ lh ne]
    by (simp add: inv_scale_by_action_bounds_def scale_by_action_bounds_def comp_def
        list_all_iff)
  have sup: "in_support (map (map Fin) x)"
    using unit by (simp add: in_support_def in_unit_interval_def list_all_iff)
  have out: "outcome (get_action_and_value ag alpha beta x None) =
         (if beta_args_valid alpha beta then Inr (scale_by_action_bounds ag x)
          else Inl ValueError)"
    using sup by (simp add: get_action_and_value_def Let_def rt)
  have one: "list_all2 (\<le>) ?low (t_add (t_mul row (t_sub ?high ?low)) ?low)
      \<and> list_all2 (\<le>) (t_add (t_mul row (t_sub ?high ?low)) ?low) ?high"
    if r: "row \<in> set x" for row
  proof -
    have lr: "length row = length ?low" using rows r by (simp add: list_all_iff)
    have ls: "length (t_add (t_mul row (t_sub ?high ?low)) ?low) = length ?low"
      using lr lh by (rule scale_row_length)
    have el: "?low ! i \<le> t_add (t_mul row (t_sub ?high ?low)) ?low ! i
        \<and> t_add (t_mul row (t_sub ?high ?low)) ?low ! i \<le> ?high ! i"
      if i: "i < length ?low" for i
    proof -
      have u: "0 \<le> row ! i \<and> row ! i \<le> 1"
        using unit r i lr by (simp add: list_all_iff)
      have "?low ! i \<le> ?high ! i" using ne i by (simp add: less_imp_le)
      then have "?low ! i \<le> row ! i * (?high ! i - ?low ! i) + ?low ! i
          \<and> row ! i * (?high ! i - ?low ! i) + ?low ! i \<le> ?high ! i"
        using u by (intro scale_row_bounds) simp_all
      then show ?thesis using scale_row_nth[OF lr lh i] by simp
    qed
    show ?thesis using ls lh el by (simp add: list_all2_conv_all_nth)
  qed
  have bd: "list_all (\<lambda>row. list_all2 (\<le>) ?low row \<and> list_all2 (\<le>) row ?high)
         (scale_by_action_bounds ag x)"
    using one by (simp add: scale_by_action_bounds_def list_all_iff)
  show ?thesis using rt out bd by simp
qed

theorem C7_rescaling_roundtrip_and_bounds_witness:
  "list_all2 (\<lambda>l h. l < h) (action_space_low example_agent) (action_space_high example_agent)
   \<and> list_all (\<lambda>row. length row = length (action_space_low example_agent)) [[1 / 2, 3 / 4]]
   \<and> list_all (list_all (\<lambda>u. 0 \<le> u \<and> u \<le> 1)) [[1 / 2, 3 / 4 :: real]]
   \<and> inv_scale_by_action_bounds example_agent (scale_by_action_bounds example_agent [[1 / 2, 3 / 4]])
       = [[Fin (1 / 2), Fin (3 / 4)]]
   \<and> outcome (get_action_and_value example_agent [[Fin 2, Fin 3]] [[Fin 2, Fin 2]]
         [[1 / 2, 3 / 4]] None) = Inr (scale_by_action_bounds example_agent [[1 / 2, 3 / 4]])
   \<and> list_all (\<lambda>row. list_all2 (\<le>) (action_space_low example_agent) row
                     \<and> list_all2 (\<le>) row (action_space_high example_agent))
       (scale_by_action_bounds example_agent [[1 / 2, 3 / 4]])"
proof -
  have h1: "list_all2 (\<lambda>l h. l < h) (action_space_low example_agent)
      (action_space_high example_agent)"
    by (simp add: example_agent_def)
  have h2: "list_all (\<lambda>row. length row = length (action_space_low example_agent)) [[1 / 2, 3 / 4]]"
    by (simp add: example_agent_def)
  have h3: "list_all (list_all (\<lambda>u. 0 \<le> u \<and> u \<le> 1)) [[1 / 2, 3 / 4 :: real]]"
    by simp
  have v: "beta_args_valid [[Fin 2, Fin 3]] [[Fin 2, Fin 2]]"
    by (simp add: beta_args_valid_def positive_fl_def)
  note c = C7_rescaling_roundtrip_and_bounds[OF h1 h2 h3,
      of "[[Fin 2, Fin 3]]" "[[Fin 2, Fin 2]]"]
  have c1: "inv_scale_by_action_bounds example_agent
      (scale_by_action_bounds example_agent [[1 / 2, 3 / 4]]) = [[Fin (1 / 2), Fin (3 / 4)]]"
    using c[THEN conjunct1] by simp
  have c2: "outcome (get_action_and_value example_agent [[Fin 2, Fin 3]] [[Fin 2, Fin 2]]
         [[1 / 2, 3 / 4]] None) = Inr (scale_by_action_bounds example_agent [[1 / 2, 3 / 4]])"
    using c[THEN conjunct2, THEN conjunct1] v by simp
  show ?thesis
    using h1 h2 h3 c1 c2 c[THEN conjunct2, THEN conjunct2]
    by (intro conjI) assumption+
qed

lemma example_scaled_action:
  "scale_by_action_bounds example_agent [[1 / 2, 3 / 4]] = [[0, 2 / 10]]"
  by (simp add: scale_by_action_bounds_def example_agent_def t_add_def t_mul_def t_sub_def
      bcast2_def)

lemma nan_or_neg_inf_invalid:
  assumes "list_ex (list_ex (\<lambda>x. isnan x \<or> x = NInf)) (alpha @ beta)"
  shows "\<not> beta_args_valid alpha beta"
proof -
  have "\<not> positive_fl x" if "isnan x \<or> x = NInf" for x
    using that by (cases x) (simp_all add: positive_fl_def)
  then show ?thesis
    using assms by (auto simp: beta_args_valid_def list_ex_iff list_all_iff)
qed

lemma nan_parameters_rejected_by_torch:
  "get_action_and_value example_agent [[NaN, Fin 2]] [[Fin 2, Fin 2]] [] (Some [[0, 1 / 5]])
     = \<lparr>trace = map Logged (log_actor_parameters example_agent)
                @ [BetaInit [[NaN, Fin 2]] [[Fin 2, Fin 2]]],
        outcome = Inl ValueError\<rparr>"
  by (simp add: get_action_and_value_def nonfinite_params_def beta_args_valid_def
      positive_fl_def)

text \<open>
  C8, as claimed: non-finite \<open>alpha\<close> or \<open>beta\<close> are reported with their values and are
  fatal, the Beta distribution being neither built nor used. In the code the test only
  guards logging calls. With an infinite component in \<open>alpha\<close> the method logs the
  parameters of the two actor sub-networks (not \<open>alpha\<close> and \<open>beta\<close>), then builds
  \<open>Beta(alpha, beta)\<close>, which torch accepts, evaluates its log-density, its entropy and
  the critic, and returns.
\<close>

theorem C8_counterexample:
  "nonfinite_params [[Fin 2, PInf]] [[Fin 2, Fin 2]]
   \<and> get_action_and_value example_agent [[Fin 2, PInf]] [[Fin 2, Fin 2]] []
        (Some [[0, 1 / 5]])
     = \<lparr>trace =
          [Logged (Info ''alpha model parameters:''), Logged (ParamInfo 0 [1, 2]),
           Logged (ParamInfo 1 [3]), Logged (Info ''-----------------------------------''),
           Logged (Info ''beta model parameters:''), Logged (ParamInfo 0 [4]),
           BetaInit [[Fin 2, PInf]] [[Fin 2, Fin 2]],
           LogProbEval [[Fin (1 / 2), Fin (3 / 4)]], EntropyEval, CriticEval],
        outcome = Inr [[0, 1 / 5]]\<rparr>"
  by (simp add: nonfinite_params_def get_action_and_value_def log_actor_parameters_def
      log_parameters_def example_agent_def inv_scale_by_action_bounds_def
      beta_args_valid_def positive_fl_def in_support_def in_unit_interval_def
      t_sub_def bcast2_def fl_div_def)

text \<open>
  C8, amended: whenever a component of \<open>alpha\<close> or \<open>beta\<close> is nan or infinite,
  \<^verbatim>\<open>get_action_and_value\<close> detects it before the distribution is built and logs the
  parameters of the alpha and beta sub-networks; it raises nothing itself and goes on to
  call \<open>Beta(alpha, beta)\<close>. The call is fatal only through torch's own validation: when
  a component is nan or \<open>-inf\<close> the constructor raises \<^verbatim>\<open>ValueError\<close> and nothing is
  sampled or evaluated; when torch accepts the parameters (the non-finite components
  are \<open>+inf\<close>) the distribution is built and used: sampled from when no action is given,
  and for a given action its log-density is evaluated, then entropy and critic, and the
  action is returned (unless its rescaling leaves the support, which \<^verbatim>\<open>log_prob\<close>
  rejects).
\<close>

theorem C8_nonfinite_parameters_logged_then_passed_to_torch:
  assumes "nonfinite_params alpha beta"
  shows "(\<exists>rest. trace (get_action_and_value ag alpha beta sample action) =
            map Logged (log_actor_parameters ag) @ BetaInit alpha beta # rest)
     \<and> (list_ex (list_ex (\<lambda>x. isnan x \<or> x = NInf)) (alpha @ beta) \<longrightarrow>
           get_action_and_value ag alpha beta sample action =
             \<lparr>trace = map Logged (log_actor_parameters ag) @ [BetaInit alpha beta],
              outcome = Inl ValueError\<rparr>)
     \<and> (beta_args_valid alpha beta \<longrightarrow>
           (\<exists>rest. trace (get_action_and_value ag alpha beta sample None) =
              map Logged (log_actor_parameters ag)
              @ BetaInit alpha beta # SampleDrawn # rest)
           \<and> get_action_and_value ag alpha beta sample (Some act) =
               (if in_support (inv_scale_by_action_bounds ag act) then
                  \<lparr>trace = map Logged (log_actor_parameters ag)
                     @ [BetaInit alpha beta, LogProbEval (inv_scale_by_action_bounds ag act),
                        EntropyEval, CriticEval],
                   outcome = Inr act\<rparr>
                else
                  \<lparr>trace = map Logged (log_actor_parameters ag)
                     @ [BetaInit alpha beta, LogProbEval (inv_scale_by_action_bounds ag act)],
                   outcome = Inl ValueError\<rparr>))"
proof (intro conjI impI)
  show "\<exists>rest. trace (get_action_and_value ag alpha beta sample action) =
      map Logged (log_actor_parameters ag) @ BetaInit alpha beta # rest"
    using assms by (simp add: get_action_and_value_def Let_def)
next
  assume "list_ex (list_ex (\<lambda>x. isnan x \<or> x = NInf)) (alpha @ beta)"
  then have "\<not> beta_args_valid alpha beta" by (rule nan_or_neg_inf_invalid)
  then show "get_action_and_value ag alpha beta sample action =
      \<lparr>trace = map Logged (log_actor_parameters ag) @ [BetaInit alpha beta],
       outcome = Inl ValueError\<rparr>"
    using assms by (simp add: get_action_and_value_def Let_def)
next
  assume v: "beta_args_valid alpha beta"
  show "\<exists>rest. trace (get_action_and_value ag alpha beta sample None) =
      map Logged (log_actor_parameters ag) @ BetaInit alpha beta # SampleDrawn # rest"
    using assms v by (simp add: get_action_and_value_def Let_def)
  show "get_action_and_value ag alpha beta sample (Some act) =
      (if in_support (inv_scale_by_action_bounds ag act) then
         \<lparr>trace = map Logged (log_actor_parameters ag)
            @ [BetaInit alpha beta, LogProbEval (inv_scale_by_action_bounds ag act),
               EntropyEval, CriticEval],
          outcome = Inr act\<rparr>
       else
         \<lparr>trace = map Logged (log_actor_parameters ag)
            @ [BetaInit alpha beta, LogProbEval (inv_scale_by_action_bounds ag act)],
          outcome = Inl ValueError\<rparr>)"
    using assms v by (simp add: get_action_and_value_def Let_def)
qed

theorem C8_nonfinite_parameters_logged_then_passed_to_torch_witness:
  "nonfinite_params [[Fin 2, PInf]] [[Fin 2, Fin 2]]
   \<and> beta_args_valid [[Fin 2, PInf]] [[Fin 2, Fin 2]]
   \<and> in_support (inv_scale_by_action_bounds example_agent [[0, 1 / 5]])
   \<and> get_action_and_value example_agent [[Fin 2, PInf]] [[Fin 2, Fin 2]] []
        (Some [[0, 1 / 5]])
     = \<lparr>trace = map Logged (log_actor_parameters example_agent)
          @ [BetaInit [[Fin 2, PInf]] [[Fin 2, Fin 2]],
             LogProbEval (inv_scale_by_action_bounds example_agent [[0, 1 / 5]]),
             EntropyEval, CriticEval],
        outcome = Inr [[0, 1 / 5]]\<rparr>"
proof -
  have h: "nonfinite_params [[Fin 2, PInf]] [[Fin 2, Fin 2]]"
    by (simp add: nonfinite_params_def)
  have v: "beta_args_valid [[Fin 2, PInf]] [[Fin 2, Fin 2]]"
    by (simp add: beta_args_valid_def positive_fl_def)
  have s: "in_support (inv_scale_by_action_bounds example_agent [[0, 1 / 5]])"
    by (simp add: inv_scale_by_action_bounds_def example_agent_def t_sub_def bcast2_def
        fl_div_def in_support_def in_unit_interval_def)
  note c = C8_nonfinite_parameters_logged_then_passed_to_torch[OF h, of example_agent "[]" "Some [[0, 1 / 5]]" "[[0, 1 / 5]]",
      THEN conjunct2, THEN conjunct2, rule_format, OF v, THEN conjunct2]
  have r: "get_action_and_value example_agent [[Fin 2, PInf]] [[Fin 2, Fin 2]] []
        (Some [[0, 1 / 5]])
     = \<lparr>trace = map Logged (log_actor_parameters example_agent)
          @ [BetaInit [[Fin 2, PInf]] [[Fin 2, Fin 2]],
             LogProbEval (inv_scale_by_action_bounds example_agent [[0, 1 / 5]]),
             EntropyEval, CriticEval],
        outcome = Inr [[0, 1 / 5]]\<rparr>"
    using c s by simp
  show ?thesis using h v s r by (intro conjI) assumption+
qed

subsection \<open>The update cycle: early stopping and metric emission\<close>

lemma minibatch_loop_explained_var:
  "explained_var (minibatch_loop ss ns) = explained_var ns"
  by (induction ss arbitrary: ns) simp_all

lemma minibatch_loop_stats:
  "ss \<noteq> [] \<Longrightarrow> stats (minibatch_loop ss ns) = Some (last ss)"
  by (induction ss arbitrary: ns) (auto simp: neq_Nil_conv)

lemma epoch_loop_after_first_binding:
  assumes "explained_var ns \<noteq> None" and "es \<noteq> []"
    and "list_all (\<lambda>e. epoch_stats c e \<noteq> []) es"
  shows "\<exists>ns'. epoch_loop a c es ns = Inr ns' \<and> explained_var ns' \<noteq> None \<and> stats ns' \<noteq> None"
  using assms
proof (induction es arbitrary: ns)
  case Nil
  then show ?case by simp
next
  case (Cons e es)
  let ?ns1 = "minibatch_loop (epoch_stats c e) ns"
  let ?ns2 = "?ns1\<lparr>explained_var := Some (explained_variance (b_values c) (b_returns c))\<rparr>"
  have ne: "epoch_stats c e \<noteq> []" using Cons.prems by simp
  have s1: "stats ?ns1 = Some (last (epoch_stats c e))"
    using ne by (rule minibatch_loop_stats)
  have e1: "explained_var ?ns1 \<noteq> None"
    using Cons.prems by (simp add: minibatch_loop_explained_var)
  have rest: "\<exists>ns'. epoch_loop a c es ?ns2 = Inr ns' \<and> explained_var ns' \<noteq> None
      \<and> stats ns' \<noteq> None"
  proof (cases "es = []")
    case True
    then show ?thesis using s1 by simp
  next
    case False
    then show ?thesis using Cons.IH[of ?ns2] Cons.prems by simp
  qed
  show ?case
    using s1 e1 rest by (auto simp: Let_def split: option.splits)
qed

lemma emit_metrics_bound:
  "explained_var ns \<noteq> None \<Longrightarrow> stats ns \<noteq> None \<Longrightarrow> \<exists>row. emit_metrics ns = Inr row"
  by (auto simp: emit_metrics_def split: option.splits)

lemma later_early_stop_continues:
  "training kl_args (kl_cycle (\<lambda>update epoch. if update = 1 \<and> epoch = 0 then 0 else 2 / 100)) =
     Inr [[(''losses/value_loss'', Fin 1), (''losses/policy_loss'', Fin 0),
           (''losses/entropy'', Fin 0), (''losses/old_approx_kl'', Fin 0),
           (''losses/approx_kl'', Fin (2 / 100)), (''losses/explained_variance'', Fin 0)],
          [(''losses/value_loss'', Fin 1), (''losses/policy_loss'', Fin 0),
           (''losses/entropy'', Fin 0), (''losses/old_approx_kl'', Fin 0),
           (''losses/approx_kl'', Fin (2 / 100)), (''losses/explained_variance'', Fin 0)]]"
  by (simp add: training_def kl_args_def default_args_def kl_cycle_def emit_metrics_def
      explained_variance_def np_var_def t_mean_def t_sub_def bcast2_def
      upt_rec Let_def)

text \<open>
  C9 (code defect). The claim: when \<^verbatim>\<open>approx_kl\<close> exceeds the configured threshold after
  an epoch, the remaining epochs are skipped and the run goes on to the metric emission
  and the next cycle, also at the first epoch of the first cycle. The assignment of
  \<^verbatim>\<open>explained_var\<close> sits inside the epoch loop after the \<^verbatim>\<open>break\<close>, so a stop at the
  first epoch of the first cycle leaves the name unbound and the emission raises
  \<^verbatim>\<open>NameError\<close>. Once an epoch has completed without stopping, the name stays bound
  and a later stop goes through (\<open>epoch_loop_after_first_binding\<close>,
  \<open>later_early_stop_continues\<close>).
\<close>

theorem C9_first_epoch_early_stop_raises_NameError:
  "training kl_args (kl_cycle (\<lambda>update epoch. 2 / 100)) = Inl (NameError ''explained_var'')"
  by (simp add: training_def kl_args_def default_args_def kl_cycle_def emit_metrics_def
      upt_rec Let_def)

end
